theory Spec2Isabelle
  imports Main "HOL-Library.Word"
begin

section \<open>Data model of TimerLib\<close>

text \<open>
  The library is written for a 32-bit microcontroller: \<open>uint32_t\<close> is \<open>unsigned int\<close>,
  so arithmetic on two \<open>uint32_t\<close> operands is carried out modulo \<open>2 ^ 32\<close>, and an
  operand is widened only where the source casts to \<open>uint64_t\<close> or where the other
  operand already is one.
\<close>

type_synonym u32 = "32 word"
type_synonym u64 = "64 word"

text \<open>\<open>TimerLib_Handle\<close> of TimerLib.h.\<close>

record TimerLib_Handle =
  last_cnt :: u32
  last_overflow :: u32

text \<open>The anonymous struct \<open>optim\<close> of TimerLib.c.\<close>

record optim_t =
  us_optimized :: bool
  us_per_tick :: u32
  ns_optimized :: bool
  ns_per_tick :: u32
  overflowPreMS :: u32

text \<open>
  The file-scope variables of TimerLib.c, together with the memory that holds the caller's
  handles: a handle pointer \<open>htim\<close> is an address, and \<open>heap m htim\<close> is the handle
  stored there.
\<close>

record timer_state =
  arr_value :: u32
  clock_freq :: u32
  overflow_counter :: u32
  optim :: optim_t
  heap :: "nat \<Rightarrow> TimerLib_Handle"

text \<open>
  An unsigned division by zero is undefined in C and traps on the target; it is the only
  fault the library can raise. A call either returns (\<open>Done\<close>), faults (\<open>Trap\<close>), or
  is still polling the hardware when the supplied trace of hardware observations ends
  (\<open>Waiting\<close>).
\<close>

datatype fault = DivideByZero

datatype 'a outcome = Done 'a | Trap fault | Waiting

fun obind :: "'a outcome \<Rightarrow> ('a \<Rightarrow> 'b outcome) \<Rightarrow> 'b outcome" where
  "obind (Done x) f = f x"
| "obind (Trap e) f = Trap e"
| "obind Waiting f = Waiting"

fun is_Done :: "'a outcome \<Rightarrow> bool" where
  "is_Done (Done x) = True"
| "is_Done (Trap e) = False"
| "is_Done Waiting = False"

section \<open>The hardware boundary\<close>

text \<open>
  \<open>overflow_counter\<close> is \<open>volatile\<close>: the update interrupt may run between any two
  accesses of the main program. One pass through the body of the
  \<open>do { ovf = overflow_counter; cnt = get_current_cnt(); } while (ovf != overflow_counter)\<close>
  loop makes three accesses; a \<open>probe\<close> records what the hardware did around them:
  how many update interrupts were served before the first read of \<open>overflow_counter\<close>,
  how many between that read and the read of the counter register, which value
  \<open>get_current_cnt\<close> (\<open>LL_TIM_GetCounter(TIM1)\<close>) returned, and how many interrupts
  were served before the loop condition read \<open>overflow_counter\<close> again.
  A trace is the list of probes the hardware offers to the successive passes.
\<close>

record probe =
  irq_pre :: nat
  irq_mid :: nat
  cnt_reg :: u32
  irq_post :: nat

type_synonym trace = "probe list"

text \<open>\<open>TimerLib_HandleUpdateIRQ\<close>: \<open>overflow_counter++\<close>.\<close>

definition TimerLib_HandleUpdateIRQ :: "timer_state \<Rightarrow> timer_state" where
  "TimerLib_HandleUpdateIRQ m = m\<lparr>overflow_counter := overflow_counter m + 1\<rparr>"

definition serve_irqs :: "nat \<Rightarrow> timer_state \<Rightarrow> timer_state" where
  "serve_irqs n m = (TimerLib_HandleUpdateIRQ ^^ n) m"

text \<open>
  The read loop that opens every sampling function (``atomic read of the current
  values''). It returns the pair \<open>(cnt, ovf)\<close> of the first pass whose two reads of
  \<open>overflow_counter\<close> agree.
\<close>

fun atomic_read :: "trace \<Rightarrow> timer_state \<Rightarrow> ((u32 \<times> u32) \<times> trace \<times> timer_state) outcome" where
  "atomic_read [] m = Waiting"
| "atomic_read (p # tr) m =
     (let m1 = serve_irqs (irq_pre p) m;
          ovf = overflow_counter m1;
          m2 = serve_irqs (irq_mid p) m1;
          cnt = cnt_reg p;
          m3 = serve_irqs (irq_post p) m2
      in if ovf \<noteq> overflow_counter m3 then atomic_read tr m3
         else Done ((cnt, ovf), tr, m3))"

section \<open>Configuration and handles\<close>

text \<open>\<open>TimerLib_GlobalInit\<close>. The last statement divides by \<open>arr_value\<close>.\<close>

definition TimerLib_GlobalInit :: "u32 \<Rightarrow> u32 \<Rightarrow> timer_state \<Rightarrow> timer_state outcome" where
  "TimerLib_GlobalInit arr clk_freq m =
     (let m1 = m\<lparr>arr_value := arr, clock_freq := clk_freq, overflow_counter := 0\<rparr>;
          o1 = (optim m1)\<lparr>us_optimized := (clk_freq mod 1000000 = 0)\<rparr>;
          o2 = o1\<lparr>us_per_tick := clk_freq div 1000000\<rparr>;
          o3 = o2\<lparr>ns_optimized := (clk_freq mod 1000000000 = 0)\<rparr>;
          o4 = (if ns_optimized o3 then o3\<lparr>ns_per_tick := clk_freq div 1000000000\<rparr> else o3)
      in if arr_value m1 = 0 then Trap DivideByZero
         else Done (m1\<lparr>optim := o4\<lparr>overflowPreMS := clk_freq div arr_value m1 div 1000\<rparr>\<rparr>))"

text \<open>\<open>TimerLib_InitHandle\<close>.\<close>

definition TimerLib_InitHandle :: "nat \<Rightarrow> trace \<Rightarrow> timer_state \<Rightarrow> (trace \<times> timer_state) outcome" where
  "TimerLib_InitHandle htim tr m =
     obind (atomic_read tr m) (\<lambda>((cnt, ovf), tr', m').
       Done (tr', m'\<lparr>heap := (heap m')(htim := \<lparr>last_cnt = cnt, last_overflow = ovf\<rparr>)\<rparr>))"

section \<open>Tick accounting\<close>

text \<open>\<open>calculate_ticks\<close>: every operand is a \<open>uint32_t\<close>, and so is the result.\<close>

definition calculate_ticks :: "nat \<Rightarrow> trace \<Rightarrow> timer_state \<Rightarrow> (u32 \<times> trace \<times> timer_state) outcome" where
  "calculate_ticks htim tr m =
     obind (atomic_read tr m) (\<lambda>((current_cnt, current_ovf), tr', m').
       let h = heap m' htim;
           (delta_cnt, delta_ovf) =
             (if current_cnt \<ge> last_cnt h
              then (current_cnt - last_cnt h, current_ovf - last_overflow h)
              else ((arr_value m' - last_cnt h) + current_cnt,
                    current_ovf - last_overflow h - 1));
           m'' = m'\<lparr>heap := (heap m')(htim := \<lparr>last_cnt = current_cnt, last_overflow = current_ovf\<rparr>)\<rparr>
       in Done (delta_ovf * arr_value m'' + delta_cnt, tr', m''))"

text \<open>\<open>calculate_Timestamp\<close>: the product is formed in 64 bits.\<close>

definition calculate_Timestamp :: "trace \<Rightarrow> timer_state \<Rightarrow> (u64 \<times> trace \<times> timer_state) outcome" where
  "calculate_Timestamp tr m =
     obind (atomic_read tr m) (\<lambda>((current_cnt, current_ovf), tr', m').
       Done ((ucast current_ovf :: u64) * ucast (arr_value m') + ucast current_cnt, tr', m'))"

section \<open>Tick-to-duration conversion\<close>

text \<open>C's unsigned division: the quotient, or the fault when the divisor is zero.\<close>

definition c_div :: "'a::len word \<Rightarrow> 'a word \<Rightarrow> 'a word outcome" where
  "c_div a b = (if b = 0 then Trap DivideByZero else Done (a div b))"

text \<open>
  \<open>TimerLib_GetTimestamp_us\<close>: \<open>ticks\<close> is a \<open>uint64_t\<close>, so both divisors are
  widened to 64 bits and the product \<open>ticks * 1000000\<close> is a 64-bit product.
\<close>

definition TimerLib_GetTimestamp_us :: "trace \<Rightarrow> timer_state \<Rightarrow> (u64 \<times> trace \<times> timer_state) outcome" where
  "TimerLib_GetTimestamp_us tr m =
     obind (calculate_Timestamp tr m) (\<lambda>(ticks, tr', m').
       if us_optimized (optim m')
       then obind (c_div ticks (ucast (us_per_tick (optim m')))) (\<lambda>q. Done (q, tr', m'))
       else obind (c_div (ticks * 1000000) (ucast (clock_freq m'))) (\<lambda>q. Done (q, tr', m')))"

text \<open>
  \<open>TimerLib_GetTimestamp_sf\<close> and \<open>TimerLib_GetTimestamp_df\<close> return a floating-point
  number. The model follows them up to the integer quotient they compute; the conversion
  of that quotient to \<open>float\<close> or \<open>double\<close> and the scaling by \<open>1e-6f\<close> or \<open>1e-9\<close>
  are not represented.
\<close>

definition TimerLib_GetTimestamp_sf :: "trace \<Rightarrow> timer_state \<Rightarrow> (u64 \<times> trace \<times> timer_state) outcome" where
  "TimerLib_GetTimestamp_sf tr m =
     obind (calculate_Timestamp tr m) (\<lambda>(ticks, tr', m').
       if us_optimized (optim m')
       then obind (c_div ticks (ucast (us_per_tick (optim m')))) (\<lambda>q. Done (q, tr', m'))
       else obind (c_div ticks (ucast (clock_freq m'))) (\<lambda>q. Done (q, tr', m')))"

definition TimerLib_GetTimestamp_df :: "trace \<Rightarrow> timer_state \<Rightarrow> (u64 \<times> trace \<times> timer_state) outcome" where
  "TimerLib_GetTimestamp_df tr m =
     obind (calculate_Timestamp tr m) (\<lambda>(ticks, tr', m').
       if us_optimized (optim m')
       then obind (c_div ticks (ucast (us_per_tick (optim m')))) (\<lambda>q. Done (q, tr', m'))
       else obind (c_div ticks (ucast (clock_freq m'))) (\<lambda>q. Done (q, tr', m')))"

text \<open>
  \<open>TimerLib_GetInterval_us\<close>: the exact branch divides in 32 bits; the other branch
  widens \<open>ticks\<close>, multiplies and divides in 64 bits, and the \<open>return\<close> converts the
  quotient to the \<open>uint32_t\<close> result type.
\<close>

definition TimerLib_GetInterval_us :: "nat \<Rightarrow> trace \<Rightarrow> timer_state \<Rightarrow> (u32 \<times> trace \<times> timer_state) outcome" where
  "TimerLib_GetInterval_us htim tr m =
     obind (calculate_ticks htim tr m) (\<lambda>(ticks, tr', m').
       if us_optimized (optim m')
       then obind (c_div ticks (us_per_tick (optim m'))) (\<lambda>q. Done (q, tr', m'))
       else obind (c_div ((ucast ticks :: u64) * 1000000) (ucast (clock_freq m')))
              (\<lambda>q. Done (ucast q, tr', m')))"

text \<open>\<open>TimerLib_GetInterval_ns\<close>.\<close>

definition TimerLib_GetInterval_ns :: "nat \<Rightarrow> trace \<Rightarrow> timer_state \<Rightarrow> (u32 \<times> trace \<times> timer_state) outcome" where
  "TimerLib_GetInterval_ns htim tr m =
     obind (calculate_ticks htim tr m) (\<lambda>(ticks, tr', m').
       if ns_optimized (optim m')
       then obind (c_div ticks (ns_per_tick (optim m'))) (\<lambda>q. Done (q, tr', m'))
       else obind (c_div ((ucast ticks :: u64) * 1000000000) (ucast (clock_freq m')))
              (\<lambda>q. Done (ucast q, tr', m')))"

text \<open>
  \<open>TimerLib_GetInterval_sf\<close> and \<open>TimerLib_GetInterval_df\<close>, again up to the integer
  quotient that is then converted and scaled in floating point.
\<close>

definition TimerLib_GetInterval_sf :: "nat \<Rightarrow> trace \<Rightarrow> timer_state \<Rightarrow> (u32 \<times> trace \<times> timer_state) outcome" where
  "TimerLib_GetInterval_sf htim tr m =
     obind (calculate_ticks htim tr m) (\<lambda>(ticks, tr', m').
       if us_optimized (optim m')
       then obind (c_div ticks (us_per_tick (optim m'))) (\<lambda>q. Done (q, tr', m'))
       else obind (c_div ticks (clock_freq m')) (\<lambda>q. Done (q, tr', m')))"

definition TimerLib_GetInterval_df :: "nat \<Rightarrow> trace \<Rightarrow> timer_state \<Rightarrow> (u32 \<times> trace \<times> timer_state) outcome" where
  "TimerLib_GetInterval_df htim tr m =
     obind (calculate_ticks htim tr m) (\<lambda>(ticks, tr', m').
       if ns_optimized (optim m')
       then obind (c_div ticks (ns_per_tick (optim m'))) (\<lambda>q. Done (q, tr', m'))
       else obind (c_div ticks (clock_freq m')) (\<lambda>q. Done (q, tr', m')))"

section \<open>Busy-wait delays\<close>

text \<open>
  The body of a \<open>while (1)\<close> wait loop: read a stable pair, leave the loop when the exit
  test holds for it, otherwise go round again. The exit test is the parameter
  \<open>reached\<close>; it is given the globals because the elapsed-tick formulas read
  \<open>arr_value\<close>.
\<close>

function wait_loop :: "(timer_state \<Rightarrow> u32 \<times> u32 \<Rightarrow> bool) \<Rightarrow> trace \<Rightarrow> timer_state
    \<Rightarrow> (trace \<times> timer_state) outcome" where
  "wait_loop reached tr m =
     (case atomic_read tr m of
        Done (cur, tr', m') \<Rightarrow> if reached m' cur then Done (tr', m') else wait_loop reached tr' m'
      | Trap e \<Rightarrow> Trap e
      | Waiting \<Rightarrow> Waiting)"
  by pat_completeness auto
termination
proof -
  have shorter: "length tr' < length tr"
    if "atomic_read tr m = Done (s, tr', m')" for tr m s tr' m'
    using that
  proof (induction tr arbitrary: m)
    case Nil
    then show ?case by simp
  next
    case (Cons p tr)
    then show ?case by (fastforce simp: Let_def split: if_splits)
  qed
  show ?thesis
    by (relation "measure (\<lambda>(reached, tr, m). length tr)") (auto dest: shorter)
qed

declare wait_loop.simps [simp del]

text \<open>
  The elapsed-tick computation shared, text for text, by \<open>TimerLib_DelayNS\<close>,
  \<open>TimerLib_DelayUS\<close> and \<open>TimerLib_DelayUS_32\<close>. It is evaluated in 32 bits; the first
  two functions then store it in a \<open>uint64_t\<close>.
\<close>

definition delay_elapsed :: "u32 \<Rightarrow> u32 \<times> u32 \<Rightarrow> u32 \<times> u32 \<Rightarrow> u32" where
  "delay_elapsed arr start cur =
     (case (start, cur) of ((start_cnt, start_ovf), (current_cnt, current_ovf)) \<Rightarrow>
        if current_ovf = start_ovf then current_cnt - start_cnt
        else (arr - start_cnt) + (current_ovf - start_ovf - 1) * arr + current_cnt)"

text \<open>\<open>TimerLib_DelayNS\<close>: the target is computed in 64 bits.\<close>

definition DelayNS_ticks :: "timer_state \<Rightarrow> u32 \<Rightarrow> u64" where
  "DelayNS_ticks m ns = (ucast ns :: u64) * ucast (clock_freq m) div 1000000000"

definition TimerLib_DelayNS :: "u32 \<Rightarrow> trace \<Rightarrow> timer_state \<Rightarrow> (trace \<times> timer_state) outcome" where
  "TimerLib_DelayNS ns tr m =
     obind (atomic_read tr m) (\<lambda>(start, tr0, m0).
       let delay_ticks = DelayNS_ticks m0 ns
       in wait_loop (\<lambda>m' cur. (ucast (delay_elapsed (arr_value m') start cur) :: u64) \<ge> delay_ticks)
            tr0 m0)"

text \<open>
  \<open>TimerLib_DelayUS\<close>: in the exact branch the product \<open>us * optim.us_per_tick\<close> has two
  \<open>uint32_t\<close> operands and is widened only when it is stored; the other branch casts
  \<open>us\<close> first.
\<close>

definition DelayUS_ticks :: "timer_state \<Rightarrow> u32 \<Rightarrow> u64" where
  "DelayUS_ticks m us =
     (if us_optimized (optim m) then ucast (us * us_per_tick (optim m))
      else (ucast us :: u64) * ucast (clock_freq m) div 1000000)"

definition TimerLib_DelayUS :: "u32 \<Rightarrow> trace \<Rightarrow> timer_state \<Rightarrow> (trace \<times> timer_state) outcome" where
  "TimerLib_DelayUS us tr m =
     obind (atomic_read tr m) (\<lambda>(start, tr0, m0).
       let delay_ticks = DelayUS_ticks m0 us
       in wait_loop (\<lambda>m' cur. (ucast (delay_elapsed (arr_value m') start cur) :: u64) \<ge> delay_ticks)
            tr0 m0)"

text \<open>\<open>TimerLib_DelayUS_32\<close>: every variable is a \<open>uint32_t\<close>.\<close>

definition DelayUS_32_ticks :: "timer_state \<Rightarrow> u32 \<Rightarrow> u32" where
  "DelayUS_32_ticks m us =
     (if us_optimized (optim m) then us * us_per_tick (optim m)
      else us * clock_freq m div 1000000)"

definition TimerLib_DelayUS_32 :: "u32 \<Rightarrow> trace \<Rightarrow> timer_state \<Rightarrow> (trace \<times> timer_state) outcome" where
  "TimerLib_DelayUS_32 us tr m =
     obind (atomic_read tr m) (\<lambda>(start, tr0, m0).
       let delay_ticks = DelayUS_32_ticks m0 us
       in wait_loop (\<lambda>m' cur. delay_elapsed (arr_value m') start cur \<ge> delay_ticks) tr0 m0)"

text \<open>
  \<open>TimerLib_DelayUS_32Short\<close>: the start pair is read first, then the request is checked,
  and only then the wait loop is entered. The result is the C \<open>int\<close> returned.
\<close>

definition short_elapsed :: "u32 \<Rightarrow> u32 \<times> u32 \<Rightarrow> u32 \<times> u32 \<Rightarrow> u32" where
  "short_elapsed arr start cur =
     (case (start, cur) of ((start_cnt, start_ovf), (current_cnt, current_ovf)) \<Rightarrow>
        if current_ovf > start_ovf then (arr - start_cnt) + current_cnt
        else current_cnt - start_cnt)"

definition TimerLib_DelayUS_32Short :: "u32 \<Rightarrow> trace \<Rightarrow> timer_state \<Rightarrow> (int \<times> trace \<times> timer_state) outcome" where
  "TimerLib_DelayUS_32Short us tr m =
     obind (atomic_read tr m) (\<lambda>(start, tr0, m0).
       if \<not> (us_optimized (optim m0) \<and> us < 1000 \<and> overflowPreMS (optim m0) \<le> 1)
       then Done (- 1, tr0, m0)
       else let delay_ticks = us * us_per_tick (optim m0)
            in obind (wait_loop (\<lambda>m' cur. short_elapsed (arr_value m') start cur \<ge> delay_ticks) tr0 m0)
                 (\<lambda>(tr', m'). Done (0, tr', m')))"

section \<open>Notions used in the statements\<close>

text \<open>The value a call returned, when it did return.\<close>

fun result_of :: "('a \<times> trace \<times> timer_state) outcome \<Rightarrow> 'a option" where
  "result_of (Done (r, tr, m)) = Some r"
| "result_of (Trap e) = None"
| "result_of Waiting = None"

text \<open>
  The elapsed-tick formula in the words of the specification (section 4.3), over the
  mathematical integers: \<open>reload\<close>, a baseline \<open>(raw0, ovf0)\<close> and a current sample
  \<open>(raw1, ovf1)\<close>.
\<close>

definition ElapsedTicks_spec :: "int \<Rightarrow> int \<times> int \<Rightarrow> int \<times> int \<Rightarrow> int" where
  "ElapsedTicks_spec reload baseline current =
     (case (baseline, current) of ((raw0, ovf0), (raw1, ovf1)) \<Rightarrow>
        if raw1 \<ge> raw0 then (ovf1 - ovf0) * reload + (raw1 - raw0)
        else (ovf1 - ovf0 - 1) * reload + (reload - raw0) + raw1)"

text \<open>
  The ticks elapsed between two samples by the rollover arithmetic of section 4.3, as a
  32-bit unsigned quantity: this is what \<open>calculate_ticks\<close> returns for a handle whose
  baseline is \<open>start\<close> when the current sample is \<open>cur\<close>.
\<close>

definition elapsed_since :: "u32 \<Rightarrow> u32 \<times> u32 \<Rightarrow> u32 \<times> u32 \<Rightarrow> nat" where
  "elapsed_since arr start cur =
     nat (ElapsedTicks_spec (uint arr) (uint (fst start), uint (snd start))
            (uint (fst cur), uint (snd cur)) mod 2 ^ 32)"

text \<open>
  The stable pairs that successive read loops obtain from a trace, each with the rest of
  the trace and the state it leaves: what a wait loop sees, pass after pass.
\<close>

function polls :: "trace \<Rightarrow> timer_state \<Rightarrow> ((u32 \<times> u32) \<times> trace \<times> timer_state) list" where
  "polls tr m =
     (case atomic_read tr m of
        Done (cur, tr', m') \<Rightarrow> (cur, tr', m') # polls tr' m'
      | Trap e \<Rightarrow> []
      | Waiting \<Rightarrow> [])"
  by pat_completeness auto
termination
proof -
  have shorter: "length tr' < length tr"
    if "atomic_read tr m = Done (s, tr', m')" for tr m s tr' m'
    using that
  proof (induction tr arbitrary: m)
    case Nil
    then show ?case by simp
  next
    case (Cons p tr)
    then show ?case by (fastforce simp: Let_def split: if_splits)
  qed
  show ?thesis
    by (relation "measure (\<lambda>(tr, m). length tr)") (auto dest: shorter)
qed

declare polls.simps [simp del]

text \<open>
  A wait for \<open>T\<close> ticks, measured by \<open>E\<close>, over the polls \<open>ps\<close>: it ends at \<open>out\<close>
  when \<open>out\<close> is what the first poll with \<open>E \<ge> T\<close> leaves, every earlier poll having
  \<open>E < T\<close>; it has not ended while every poll has \<open>E < T\<close>.
\<close>

definition first_reached ::
    "nat \<Rightarrow> (u32 \<times> u32 \<Rightarrow> nat) \<Rightarrow> ((u32 \<times> u32) \<times> trace \<times> timer_state) list
      \<Rightarrow> trace \<times> timer_state \<Rightarrow> bool" where
  "first_reached T E ps out =
     (\<exists>i<length ps. snd (ps ! i) = out \<and> T \<le> E (fst (ps ! i)) \<and>
        (\<forall>j<i. E (fst (ps ! j)) < T))"

definition never_reached ::
    "nat \<Rightarrow> (u32 \<times> u32 \<Rightarrow> nat) \<Rightarrow> ((u32 \<times> u32) \<times> trace \<times> timer_state) list \<Rightarrow> bool" where
  "never_reached T E ps = (\<forall>p \<in> set ps. E (fst p) < T)"

text \<open>
  The number of update interrupts served while a stretch of the trace is consumed.
\<close>

definition irq_count :: "trace \<Rightarrow> nat" where
  "irq_count tr = sum_list (map (\<lambda>p. irq_pre p + irq_mid p + irq_post p) tr)"

text \<open>
  The elapsed tick count of section 4.3 between a start sample and a current sample,
  over the mathematical integers.
\<close>

definition count_4_3 :: "u32 \<Rightarrow> u32 \<times> u32 \<Rightarrow> u32 \<times> u32 \<Rightarrow> int" where
  "count_4_3 arr start cur =
     ElapsedTicks_spec (uint arr) (uint (fst start), uint (snd start))
       (uint (fst cur), uint (snd cur))"

text \<open>
  States and probes for concrete runs. \<open>power_on\<close> is the zero-initialised static storage
  of a C program. \<open>running arr clk ovf h\<close> is the state after
  \<open>TimerLib_GlobalInit(arr, clk)\<close> once \<open>ovf\<close> overflows have been counted and every
  handle holds \<open>h\<close>. \<open>probe_at n c\<close> is a pass of the read loop before which \<open>n\<close> update
  interrupts are served and in which the counter register reads \<open>c\<close>.
\<close>

definition power_on :: timer_state where
  "power_on = \<lparr>arr_value = 0, clock_freq = 0, overflow_counter = 0,
     optim = \<lparr>us_optimized = False, us_per_tick = 0, ns_optimized = False, ns_per_tick = 0,
              overflowPreMS = 0\<rparr>,
     heap = (\<lambda>a. \<lparr>last_cnt = 0, last_overflow = 0\<rparr>)\<rparr>"

definition running :: "u32 \<Rightarrow> u32 \<Rightarrow> u32 \<Rightarrow> TimerLib_Handle \<Rightarrow> timer_state" where
  "running arr clk ovf h =
     (case TimerLib_GlobalInit arr clk power_on of
        Done m \<Rightarrow> m\<lparr>overflow_counter := ovf, heap := (\<lambda>a. h)\<rparr>
      | Trap e \<Rightarrow> power_on
      | Waiting \<Rightarrow> power_on)"

definition probe_at :: "nat \<Rightarrow> u32 \<Rightarrow> probe" where
  "probe_at n c = \<lparr>irq_pre = n, irq_mid = 0, cnt_reg = c, irq_post = 0\<rparr>"

text \<open>
  A state whose conversion coefficients are the ones \<open>TimerLib_GlobalInit\<close> derives
  from a nonzero clock frequency.
\<close>

definition configured :: "timer_state \<Rightarrow> bool" where
  "configured m =
     (clock_freq m \<noteq> 0 \<and>
      us_optimized (optim m) = (clock_freq m mod 1000000 = 0) \<and>
      us_per_tick (optim m) = clock_freq m div 1000000 \<and>
      ns_optimized (optim m) = (clock_freq m mod 1000000000 = 0) \<and>
      (if ns_optimized (optim m) then ns_per_tick (optim m) = clock_freq m div 1000000000
       else True))"

text \<open>The interval queries and the timestamp queries of the public interface.\<close>

definition interval_queries ::
    "(nat \<Rightarrow> trace \<Rightarrow> timer_state \<Rightarrow> (u32 \<times> trace \<times> timer_state) outcome) list" where
  "interval_queries =
     [TimerLib_GetInterval_us, TimerLib_GetInterval_ns,
      TimerLib_GetInterval_sf, TimerLib_GetInterval_df]"

definition timestamp_queries ::
    "(trace \<Rightarrow> timer_state \<Rightarrow> (u64 \<times> trace \<times> timer_state) outcome) list" where
  "timestamp_queries =
     [TimerLib_GetTimestamp_us, TimerLib_GetTimestamp_sf, TimerLib_GetTimestamp_df]"

section \<open>The read loop\<close>

lemma serve_irqs_eq:
  "serve_irqs n m = m\<lparr>overflow_counter := overflow_counter m + of_nat n\<rparr>"
  by (induction n) (simp_all add: serve_irqs_def TimerLib_HandleUpdateIRQ_def)

lemma atomic_read_Done:
  assumes "atomic_read tr m = Done ((cnt, ovf), tr', m')"
  shows "m' = m\<lparr>overflow_counter := ovf\<rparr>"
  using assms
proof (induction tr arbitrary: m)
  case Nil
  then show ?case by simp
next
  case (Cons p tr)
  let ?m3 = "serve_irqs (irq_post p) (serve_irqs (irq_mid p) (serve_irqs (irq_pre p) m))"
  show ?case
  proof (cases "overflow_counter (serve_irqs (irq_pre p) m) = overflow_counter ?m3")
    case True
    with Cons.prems show ?thesis by (auto simp add: Let_def serve_irqs_eq)
  next
    case False
    with Cons.prems have "atomic_read tr ?m3 = Done ((cnt, ovf), tr', m')"
      by (simp add: Let_def)
    from Cons.IH [OF this] show ?thesis by (simp add: serve_irqs_eq)
  qed
qed

section \<open>Elapsed ticks of a handle\<close>

lemma ticks_word_of_int:
  fixes cc co bc bo arr :: u32
  shows "(if cc \<ge> bc then (co - bo) * arr + (cc - bc)
          else (co - bo - 1) * arr + ((arr - bc) + cc))
       = word_of_int (ElapsedTicks_spec (uint arr) (uint bc, uint bo) (uint cc, uint co))"
  by (simp add: ElapsedTicks_spec_def word_le_def)

lemma calculate_ticks_Done:
  assumes "atomic_read tr m = Done ((cc, co), tr', m')"
  shows "calculate_ticks htim tr m =
     Done (word_of_int (ElapsedTicks_spec (uint (arr_value m))
                     (uint (last_cnt (heap m htim)), uint (last_overflow (heap m htim)))
                     (uint cc, uint co)), tr',
           m\<lparr>overflow_counter := co,
              heap := (heap m)(htim := \<lparr>last_cnt = cc, last_overflow = co\<rparr>)\<rparr>)"
proof -
  have m': "m' = m\<lparr>overflow_counter := co\<rparr>" using assms by (rule atomic_read_Done)
  show ?thesis
    unfolding calculate_ticks_def assms
    by (simp add: m' Let_def ticks_word_of_int [symmetric] split: prod.splits)
qed

lemma running_simp:
  "arr \<noteq> 0 \<Longrightarrow> running arr clk ovf h =
     \<lparr>arr_value = arr, clock_freq = clk, overflow_counter = ovf,
      optim = \<lparr>us_optimized = (clk mod 1000000 = 0), us_per_tick = clk div 1000000,
               ns_optimized = (clk mod 1000000000 = 0),
               ns_per_tick = (if clk mod 1000000000 = 0 then clk div 1000000000 else 0),
               overflowPreMS = clk div arr div 1000\<rparr>,
      heap = (\<lambda>a. h)\<rparr>"
  by (simp add: running_def TimerLib_GlobalInit_def power_on_def Let_def)

text \<open>
  Claim C1, as the code has it. \<open>calculate_ticks\<close> computes and returns a \<open>uint32_t\<close>:
  for every handle and every current sample \<open>(raw1, ovf1)\<close> it returns the value of the
  specification's two-branch formula reduced modulo \<open>2 ^ 32\<close>. The result is the
  formula's own value exactly when that value lies in \<open>[0, 2 ^ 32)\<close>. For the synthetic
  wrap (baseline raw \<open>reload - 5\<close>, current raw \<open>3\<close>, one more overflow) the result
  is \<open>8\<close>.
\<close>

theorem calculate_ticks_value:
  fixes htim :: nat
  assumes "atomic_read tr m = Done ((raw1, ovf1), tr', m')"
  defines "spec \<equiv> ElapsedTicks_spec (uint (arr_value m))
                     (uint (last_cnt (heap m htim)), uint (last_overflow (heap m htim)))
                     (uint raw1, uint ovf1)"
  shows "\<exists>r. result_of (calculate_ticks htim tr m) = Some r \<and>
          uint r = spec mod 2 ^ 32 \<and>
          (0 \<le> spec \<and> spec < 2 ^ 32 \<longrightarrow> uint r = spec) \<and>
          (last_cnt (heap m htim) = arr_value m - 5 \<and> raw1 = 3 \<and>
             ovf1 = last_overflow (heap m htim) + 1 \<longrightarrow> r = 8)"
proof -
  have synthetic: "word_of_int spec = (8 :: u32)"
    if "last_cnt (heap m htim) = arr_value m - 5" "raw1 = 3"
       "ovf1 = last_overflow (heap m htim) + 1"
    unfolding spec_def ticks_word_of_int [symmetric] using that by simp
  show ?thesis
    unfolding calculate_ticks_Done [OF assms(1)] spec_def [symmetric]
    by (auto simp: uint_word_of_int synthetic)
qed

text \<open>
  The synthetic wrap on a concrete run: reload \<open>1000\<close>, baseline \<open>(995, 7)\<close>, one
  overflow interrupt, then the counter reads \<open>3\<close>.
\<close>

theorem calculate_ticks_value_witness:
  "atomic_read [probe_at 1 3] (running 1000 8000000 7 \<lparr>last_cnt = 995, last_overflow = 7\<rparr>)
     = Done ((3, 8), [],
         (running 1000 8000000 7 \<lparr>last_cnt = 995, last_overflow = 7\<rparr>)\<lparr>overflow_counter := 8\<rparr>)
   \<and> result_of (calculate_ticks 0 [probe_at 1 3]
        (running 1000 8000000 7 \<lparr>last_cnt = 995, last_overflow = 7\<rparr>)) = Some 8"
proof -
  let ?m = "running 1000 8000000 7 \<lparr>last_cnt = 995, last_overflow = 7\<rparr>"
  have rd: "atomic_read [probe_at 1 3] ?m = Done ((3, 8), [], ?m\<lparr>overflow_counter := 8\<rparr>)"
    by (simp add: running_simp probe_at_def serve_irqs_eq Let_def)
  from calculate_ticks_value [OF rd, of 0] rd show ?thesis
    by (auto simp: running_simp)
qed

text \<open>
  Claim C1 as stated fails once the formula's value reaches \<open>2 ^ 32\<close>. With reload
  \<open>65536\<close>, a valid baseline \<open>(0, 0)\<close> and the current sample \<open>(0, 65536)\<close>, the
  formula gives \<open>65536 * 65536 = 4294967296\<close> ticks; \<open>calculate_ticks\<close> returns \<open>0\<close>.
\<close>

theorem calculate_ticks_value_counterexample:
  "atomic_read [probe_at 0 0] (running 65536 8000000 65536 \<lparr>last_cnt = 0, last_overflow = 0\<rparr>)
     = Done ((0, 65536), [], running 65536 8000000 65536 \<lparr>last_cnt = 0, last_overflow = 0\<rparr>)
   \<and> arr_value (running 65536 8000000 65536 \<lparr>last_cnt = 0, last_overflow = 0\<rparr>) = 65536
   \<and> heap (running 65536 8000000 65536 \<lparr>last_cnt = 0, last_overflow = 0\<rparr>) 0
       = \<lparr>last_cnt = 0, last_overflow = 0\<rparr>
   \<and> result_of (calculate_ticks 0 [probe_at 0 0]
        (running 65536 8000000 65536 \<lparr>last_cnt = 0, last_overflow = 0\<rparr>)) = Some 0
   \<and> ElapsedTicks_spec 65536 (0, 0) (0, 65536) = 4294967296"
  by (simp add: running_simp calculate_ticks_def Let_def ElapsedTicks_spec_def probe_at_def
      serve_irqs_eq)

section \<open>Configuration\<close>

lemma GlobalInit_Done:
  "arr \<noteq> 0 \<Longrightarrow> TimerLib_GlobalInit arr clk m =
     Done (m\<lparr>arr_value := arr, clock_freq := clk, overflow_counter := 0,
             optim := \<lparr>us_optimized = (clk mod 1000000 = 0), us_per_tick = clk div 1000000,
               ns_optimized = (clk mod 1000000000 = 0),
               ns_per_tick = (if clk mod 1000000000 = 0 then clk div 1000000000
                              else ns_per_tick (optim m)),
               overflowPreMS = clk div arr div 1000\<rparr>\<rparr>)"
  by (simp add: TimerLib_GlobalInit_def Let_def)

text \<open>
  Claim C2, as the code has it. \<open>TimerLib_GlobalInit\<close> validates nothing and has no
  configuration-error result. With a nonzero reload value it returns normally for every
  clock frequency, zero included, and stores the coefficients derived from it (for
  frequency \<open>0\<close> both exact flags are set with divisors \<open>0\<close>). With reload \<open>0\<close> it
  reaches the division \<open>clk_freq / arr_value\<close>, a division by zero.
\<close>

theorem GlobalInit_outcome:
  "(arr \<noteq> 0 \<longrightarrow>
      (\<exists>m'. TimerLib_GlobalInit arr clk m = Done m' \<and>
            arr_value m' = arr \<and> clock_freq m' = clk \<and> overflow_counter m' = 0 \<and>
            us_optimized (optim m') = (clk mod 1000000 = 0) \<and>
            us_per_tick (optim m') = clk div 1000000 \<and>
            ns_optimized (optim m') = (clk mod 1000000000 = 0) \<and>
            ns_per_tick (optim m') =
              (if clk mod 1000000000 = 0 then clk div 1000000000 else ns_per_tick (optim m)) \<and>
            overflowPreMS (optim m') = clk div arr div 1000 \<and>
            heap m' = heap m)) \<and>
   (arr = 0 \<longrightarrow> TimerLib_GlobalInit arr clk m = Trap DivideByZero)"
  by (simp add: GlobalInit_Done) (simp add: TimerLib_GlobalInit_def)

text \<open>The three cases on the zero-initialised statics.\<close>

theorem GlobalInit_outcome_witness:
  "is_Done (TimerLib_GlobalInit 8000 8000000 power_on) \<and>
   is_Done (TimerLib_GlobalInit 8000 0 power_on) \<and>
   TimerLib_GlobalInit 0 8000000 power_on = Trap DivideByZero"
  using GlobalInit_outcome [of 8000 8000000 power_on]
        GlobalInit_outcome [of 8000 0 power_on]
        GlobalInit_outcome [of 0 8000000 power_on]
  by auto

text \<open>
  Claim C2 as stated fails: reload \<open>0\<close> reaches the division by zero, and frequency
  \<open>0\<close> is accepted without any error.
\<close>

theorem GlobalInit_outcome_counterexample:
  "TimerLib_GlobalInit 0 8000000 power_on = Trap DivideByZero \<and>
   TimerLib_GlobalInit 8000 0 power_on =
     Done (power_on\<lparr>arr_value := 8000, optim := (optim power_on)\<lparr>us_optimized := True, ns_optimized := True\<rparr>\<rparr>)"
  by (simp add: TimerLib_GlobalInit_def power_on_def Let_def)

text \<open>
  After \<open>TimerLib_GlobalInit(8000, 0)\<close> the exact flag is set and the divisor is \<open>0\<close>: the
  first microsecond query divides by zero.
\<close>

lemma zero_frequency_divides_later:
  "TimerLib_GetInterval_us 0 [probe_at 0 80]
     (running 8000 0 0 \<lparr>last_cnt = 0, last_overflow = 0\<rparr>) = Trap DivideByZero"
  by (simp add: TimerLib_GetInterval_us_def calculate_ticks_def probe_at_def serve_irqs_eq
      Let_def running_simp c_div_def)

section \<open>Word arithmetic and the shape of the queries\<close>

lemma word_div_nonzero:
  fixes c k :: "'a::len word"
  assumes "c \<noteq> 0" "c mod k = 0"
  shows "c div k \<noteq> 0"
proof
  assume "c div k = 0"
  with div_mult_mod_eq [of c k] assms(2) have "c = 0" by simp
  with assms(1) show False by simp
qed

lemma word_ge1: "(1 \<le> (x :: 'a::len word)) = (x \<noteq> 0)"
  by (simp add: word_le_nat_alt unat_gt_0 [symmetric] Suc_le_eq)

lemma atomic_read_cases:
  "atomic_read tr m = Waiting \<or>
   (\<exists>cc co tr'. atomic_read tr m = Done ((cc, co), tr', m\<lparr>overflow_counter := co\<rparr>))"
proof (cases "atomic_read tr m")
  case (Done x)
  obtain cc co tr' m' where x: "x = ((cc, co), tr', m')" by (metis prod.exhaust)
  from Done x atomic_read_Done [of tr m cc co tr' m'] show ?thesis by simp
next
  case (Trap e)
  have "atomic_read tr m \<noteq> Trap e" for e
    by (induction tr arbitrary: m) (auto simp: Let_def)
  with Trap show ?thesis by simp
next
  case Waiting
  then show ?thesis by simp
qed

lemma GlobalInit_configured:
  assumes "clk \<noteq> 0" "TimerLib_GlobalInit arr clk m0 = Done m"
  shows "configured (m\<lparr>overflow_counter := ovf, heap := hp\<rparr>)"
proof -
  have "arr \<noteq> 0"
  proof
    assume "arr = 0"
    with assms(2) show False by (simp add: TimerLib_GlobalInit_def)
  qed
  from assms(2) [unfolded GlobalInit_Done [OF this]] have "m = m0\<lparr>arr_value := arr, clock_freq := clk, overflow_counter := 0,
             optim := \<lparr>us_optimized = (clk mod 1000000 = 0), us_per_tick = clk div 1000000,
               ns_optimized = (clk mod 1000000000 = 0),
               ns_per_tick = (if clk mod 1000000000 = 0 then clk div 1000000000
                              else ns_per_tick (optim m0)),
               overflowPreMS = clk div arr div 1000\<rparr>\<rparr>" by simp
  with assms(1) show ?thesis
    by (simp add: configured_def)
qed

lemma configured_divisors:
  assumes "configured m"
  shows "clock_freq m \<noteq> 0"
    and "us_optimized (optim m) \<Longrightarrow> us_per_tick (optim m) \<noteq> 0"
    and "ns_optimized (optim m) \<Longrightarrow> ns_per_tick (optim m) \<noteq> 0"
proof -
  show "clock_freq m \<noteq> 0" using assms by (simp add: configured_def)
  show "us_per_tick (optim m) \<noteq> 0" if "us_optimized (optim m)"
    using assms that word_div_nonzero [of "clock_freq m" 1000000]
    by (simp add: configured_def)
  show "ns_per_tick (optim m) \<noteq> 0" if "ns_optimized (optim m)"
    using assms that word_div_nonzero [of "clock_freq m" 1000000000]
    by (simp add: configured_def)
qed


lemma unat_ucast_up: "unat (ucast (x :: u32) :: u64) = unat x"
proof -
  have "unat x < 2 ^ 32" using unsigned_less [of x, where 'a = nat] by simp
  then have "unat x < 2 ^ 64" by simp
  then show ?thesis by (simp add: unsigned_ucast_eq take_bit_eq_mod)
qed

lemma unat_ucast_down: "unat (ucast (q :: u64) :: u32) = unat q mod 2 ^ 32"
  by (simp add: unsigned_ucast_eq take_bit_eq_mod)

lemma ucast_up_eq_0: "((ucast (x :: u32) :: u64) = 0) = (x = 0)"
  by (metis unat_ucast_up unat_eq_zero)

lemma unat_u32_bound: "unat (x :: u32) < 4294967296"
  using unsigned_less [of x, where 'a = nat] by simp

lemma unat_widened_product:
  fixes x :: u32 and k :: u64
  assumes "unat k \<le> 4294967296"
  shows "unat ((ucast x :: u64) * k) = unat x * unat k"
proof -
  have "unat x * unat k \<le> 4294967295 * 4294967296"
    using unat_u32_bound [of x] assms by (intro mult_mono) simp_all
  then have "unat (ucast x :: u64) * unat k < 2 ^ LENGTH(64)"
    by (simp add: unat_ucast_up)
  then show ?thesis by (simp add: unat_mult_lem [THEN iffD1] unat_ucast_up)
qed

lemma calculate_ticks_cases:
  "calculate_ticks htim tr m = Waiting \<or>
   (\<exists>ticks cc co tr'.
      atomic_read tr m = Done ((cc, co), tr', m\<lparr>overflow_counter := co\<rparr>) \<and>
      calculate_ticks htim tr m =
        Done (ticks, tr', m\<lparr>overflow_counter := co,
                            heap := (heap m)(htim := \<lparr>last_cnt = cc, last_overflow = co\<rparr>)\<rparr>))"
  using atomic_read_cases [of tr m]
proof
  assume "atomic_read tr m = Waiting"
  then show ?thesis by (simp add: calculate_ticks_def)
next
  assume "\<exists>cc co tr'. atomic_read tr m = Done ((cc, co), tr', m\<lparr>overflow_counter := co\<rparr>)"
  then obtain cc co tr' where rd: "atomic_read tr m = Done ((cc, co), tr', m\<lparr>overflow_counter := co\<rparr>)"
    by blast
  from calculate_ticks_Done [OF rd] rd show ?thesis by blast
qed

lemma calculate_Timestamp_cases:
  "calculate_Timestamp tr m = Waiting \<or>
   (\<exists>cc co tr'.
      atomic_read tr m = Done ((cc, co), tr', m\<lparr>overflow_counter := co\<rparr>) \<and>
      calculate_Timestamp tr m =
        Done (ucast co * ucast (arr_value m) + ucast cc, tr', m\<lparr>overflow_counter := co\<rparr>))"
  using atomic_read_cases [of tr m]
  by (auto simp: calculate_Timestamp_def)

lemma c_div_no_trap: "b \<noteq> 0 \<Longrightarrow> c_div a b = Done (a div b)"
  by (simp add: c_div_def)

lemma calculate_ticks_frame:
  assumes "calculate_ticks htim tr m = Done (ticks, tr', m')"
  shows "optim m' = optim m" "clock_freq m' = clock_freq m" "arr_value m' = arr_value m"
  using calculate_ticks_cases [of htim tr m] assms by auto

lemma calculate_Timestamp_frame:
  assumes "calculate_Timestamp tr m = Done (ticks, tr', m')"
  shows "optim m' = optim m" "clock_freq m' = clock_freq m" "arr_value m' = arr_value m"
  using calculate_Timestamp_cases [of tr m] assms by auto

lemma interval_query_Done:
  assumes ct: "calculate_ticks htim tr m = Done (ticks, tr', m')" and cfg: "configured m"
  shows "TimerLib_GetInterval_us htim tr m =
           Done (if us_optimized (optim m) then ticks div us_per_tick (optim m)
                 else ucast ((ucast ticks :: u64) * 1000000 div ucast (clock_freq m)), tr', m')"
    and "TimerLib_GetInterval_ns htim tr m =
           Done (if ns_optimized (optim m) then ticks div ns_per_tick (optim m)
                 else ucast ((ucast ticks :: u64) * 1000000000 div ucast (clock_freq m)), tr', m')"
    and "TimerLib_GetInterval_sf htim tr m =
           Done (if us_optimized (optim m) then ticks div us_per_tick (optim m)
                 else ticks div clock_freq m, tr', m')"
    and "TimerLib_GetInterval_df htim tr m =
           Done (if ns_optimized (optim m) then ticks div ns_per_tick (optim m)
                 else ticks div clock_freq m, tr', m')"
proof -
  note same = calculate_ticks_frame [OF ct]
  note nz = configured_divisors [OF cfg]
  show "TimerLib_GetInterval_us htim tr m =
           Done (if us_optimized (optim m) then ticks div us_per_tick (optim m)
                 else ucast ((ucast ticks :: u64) * 1000000 div ucast (clock_freq m)), tr', m')"
    unfolding TimerLib_GetInterval_us_def ct using nz
    by (cases "us_optimized (optim m)") (simp_all add: same c_div_def ucast_up_eq_0)
  show "TimerLib_GetInterval_ns htim tr m =
           Done (if ns_optimized (optim m) then ticks div ns_per_tick (optim m)
                 else ucast ((ucast ticks :: u64) * 1000000000 div ucast (clock_freq m)), tr', m')"
    unfolding TimerLib_GetInterval_ns_def ct using nz
    by (cases "ns_optimized (optim m)") (simp_all add: same c_div_def ucast_up_eq_0)
  show "TimerLib_GetInterval_sf htim tr m =
           Done (if us_optimized (optim m) then ticks div us_per_tick (optim m)
                 else ticks div clock_freq m, tr', m')"
    unfolding TimerLib_GetInterval_sf_def ct using nz
    by (cases "us_optimized (optim m)") (simp_all add: same c_div_def)
  show "TimerLib_GetInterval_df htim tr m =
           Done (if ns_optimized (optim m) then ticks div ns_per_tick (optim m)
                 else ticks div clock_freq m, tr', m')"
    unfolding TimerLib_GetInterval_df_def ct using nz
    by (cases "ns_optimized (optim m)") (simp_all add: same c_div_def)
qed

lemma timestamp_query_Done:
  assumes ct: "calculate_Timestamp tr m = Done (ticks, tr', m')" and cfg: "configured m"
  shows "TimerLib_GetTimestamp_us tr m =
           Done (if us_optimized (optim m) then ticks div ucast (us_per_tick (optim m))
                 else ticks * 1000000 div ucast (clock_freq m), tr', m')"
    and "TimerLib_GetTimestamp_sf tr m =
           Done (if us_optimized (optim m) then ticks div ucast (us_per_tick (optim m))
                 else ticks div ucast (clock_freq m), tr', m')"
    and "TimerLib_GetTimestamp_df tr m =
           Done (if us_optimized (optim m) then ticks div ucast (us_per_tick (optim m))
                 else ticks div ucast (clock_freq m), tr', m')"
proof -
  note same = calculate_Timestamp_frame [OF ct]
  note nz = configured_divisors [OF cfg]
  show "TimerLib_GetTimestamp_us tr m =
           Done (if us_optimized (optim m) then ticks div ucast (us_per_tick (optim m))
                 else ticks * 1000000 div ucast (clock_freq m), tr', m')"
    unfolding TimerLib_GetTimestamp_us_def ct using nz
    by (cases "us_optimized (optim m)") (simp_all add: same c_div_def ucast_up_eq_0)
  show "TimerLib_GetTimestamp_sf tr m =
           Done (if us_optimized (optim m) then ticks div ucast (us_per_tick (optim m))
                 else ticks div ucast (clock_freq m), tr', m')"
    unfolding TimerLib_GetTimestamp_sf_def ct using nz
    by (cases "us_optimized (optim m)") (simp_all add: same c_div_def ucast_up_eq_0)
  show "TimerLib_GetTimestamp_df tr m =
           Done (if us_optimized (optim m) then ticks div ucast (us_per_tick (optim m))
                 else ticks div ucast (clock_freq m), tr', m')"
    unfolding TimerLib_GetTimestamp_df_def ct using nz
    by (cases "us_optimized (optim m)") (simp_all add: same c_div_def ucast_up_eq_0)
qed

lemma interval_query_no_trap:
  assumes "configured m" "Q \<in> set interval_queries"
  shows "Q htim tr m \<noteq> Trap e"
proof (cases "calculate_ticks htim tr m")
  case (Done x)
  obtain ticks tr' m' where "x = (ticks, tr', m')" by (metis prod.exhaust)
  with Done have "calculate_ticks htim tr m = Done (ticks, tr', m')" by simp
  from interval_query_Done [OF this assms(1)] assms(2) show ?thesis
    by (auto simp: interval_queries_def)
next
  case (Trap e')
  with calculate_ticks_cases [of htim tr m] show ?thesis by auto
next
  case Waiting
  with assms(2) show ?thesis
    by (auto simp: interval_queries_def TimerLib_GetInterval_us_def TimerLib_GetInterval_ns_def
        TimerLib_GetInterval_sf_def TimerLib_GetInterval_df_def)
qed

lemma timestamp_query_no_trap:
  assumes "configured m" "Q \<in> set timestamp_queries"
  shows "Q tr m \<noteq> Trap e"
proof (cases "calculate_Timestamp tr m")
  case (Done x)
  obtain ticks tr' m' where "x = (ticks, tr', m')" by (metis prod.exhaust)
  with Done have "calculate_Timestamp tr m = Done (ticks, tr', m')" by simp
  from timestamp_query_Done [OF this assms(1)] assms(2) show ?thesis
    by (auto simp: timestamp_queries_def)
next
  case (Trap e')
  with calculate_Timestamp_cases [of tr m] show ?thesis by auto
next
  case Waiting
  with assms(2) show ?thesis
    by (auto simp: timestamp_queries_def TimerLib_GetTimestamp_us_def
        TimerLib_GetTimestamp_sf_def TimerLib_GetTimestamp_df_def)
qed

section \<open>Divisors of the exact conversions\<close>

text \<open>
  Claim C10. After a call of \<open>TimerLib_GlobalInit\<close> with a nonzero clock frequency
  that has returned, \<open>us_optimized\<close> implies \<open>us_per_tick \<ge> 1\<close> and \<open>ns_optimized\<close>
  implies \<open>ns_per_tick \<ge> 1\<close>; hence, whatever the overflow counter and the handles
  have become since, no interval query and no timestamp query divides by zero.
\<close>

theorem GlobalInit_divisors:
  assumes "clk \<noteq> 0" "TimerLib_GlobalInit arr clk m0 = Done m"
  shows "(us_optimized (optim m) \<longrightarrow> 1 \<le> us_per_tick (optim m)) \<and>
         (ns_optimized (optim m) \<longrightarrow> 1 \<le> ns_per_tick (optim m)) \<and>
         (\<forall>ovf hp htim tr. \<forall>Q \<in> set interval_queries.
            Q htim tr (m\<lparr>overflow_counter := ovf, heap := hp\<rparr>) \<noteq> Trap DivideByZero) \<and>
         (\<forall>ovf hp tr. \<forall>Q \<in> set timestamp_queries.
            Q tr (m\<lparr>overflow_counter := ovf, heap := hp\<rparr>) \<noteq> Trap DivideByZero)"
proof -
  have cfg: "configured (m\<lparr>overflow_counter := ovf, heap := hp\<rparr>)" for ovf hp
    using assms by (rule GlobalInit_configured)
  from configured_divisors [OF cfg [where ovf = "overflow_counter m" and hp = "heap m"]]
  have "us_optimized (optim m) \<longrightarrow> 1 \<le> us_per_tick (optim m)"
    and "ns_optimized (optim m) \<longrightarrow> 1 \<le> ns_per_tick (optim m)"
    by (simp_all add: word_ge1)
  with interval_query_no_trap [OF cfg] timestamp_query_no_trap [OF cfg]
  show ?thesis by blast
qed

text \<open>
  Reload \<open>8000\<close> at 8 MHz: the exact microsecond divisor is \<open>8\<close>. At 1 GHz the exact
  nanosecond divisor is \<open>1\<close>.
\<close>

theorem GlobalInit_divisors_witness:
  "(8000000 :: u32) \<noteq> 0 \<and> is_Done (TimerLib_GlobalInit 8000 8000000 power_on) \<and>
   us_optimized (optim (running 8000 8000000 0 \<lparr>last_cnt = 0, last_overflow = 0\<rparr>)) \<and>
   1 \<le> us_per_tick (optim (running 8000 8000000 0 \<lparr>last_cnt = 0, last_overflow = 0\<rparr>)) \<and>
   TimerLib_GetInterval_us 0 [probe_at 0 80] (running 8000 8000000 0 \<lparr>last_cnt = 0, last_overflow = 0\<rparr>)
     \<noteq> Trap DivideByZero \<and>
   (1000000000 :: u32) \<noteq> 0 \<and> is_Done (TimerLib_GlobalInit 8000 1000000000 power_on) \<and>
   ns_optimized (optim (running 8000 1000000000 0 \<lparr>last_cnt = 0, last_overflow = 0\<rparr>)) \<and>
   1 \<le> ns_per_tick (optim (running 8000 1000000000 0 \<lparr>last_cnt = 0, last_overflow = 0\<rparr>))"
proof -
  let ?h = "\<lparr>last_cnt = 0, last_overflow = 0\<rparr>"
  let ?m = "(running 8000 8000000 0 ?h)\<lparr>heap := heap power_on\<rparr>"
  let ?g = "(running 8000 1000000000 0 ?h)\<lparr>heap := heap power_on\<rparr>"
  have init: "TimerLib_GlobalInit 8000 8000000 power_on = Done ?m"
    by (simp add: running_simp GlobalInit_Done power_on_def)
  have initg: "TimerLib_GlobalInit 8000 1000000000 power_on = Done ?g"
    by (simp add: running_simp GlobalInit_Done power_on_def)
  have run: "?m\<lparr>overflow_counter := 0, heap := (\<lambda>a. ?h)\<rparr> = running 8000 8000000 0 ?h"
    by (simp add: running_simp)
  have us: "TimerLib_GetInterval_us \<in> set interval_queries" by (simp add: interval_queries_def)
  have opt: "us_optimized (optim ?m)" by (simp add: running_simp)
  have optg: "ns_optimized (optim ?g)" by (simp add: running_simp)
  have clk: "(8000000 :: u32) \<noteq> 0" and clkg: "(1000000000 :: u32) \<noteq> 0" by simp_all
  from GlobalInit_divisors [OF clk init] us opt
  have "1 \<le> us_per_tick (optim ?m)"
    and "TimerLib_GetInterval_us 0 [probe_at 0 80] (?m\<lparr>overflow_counter := 0, heap := (\<lambda>a. ?h)\<rparr>)
           \<noteq> Trap DivideByZero"
    by blast+
  moreover from GlobalInit_divisors [OF clkg initg] optg
  have "1 \<le> ns_per_tick (optim ?g)" by blast
  ultimately show ?thesis unfolding run using init initg opt optg by simp
qed

section \<open>Conversion of ticks to microseconds and nanoseconds\<close>

lemma running_configured: "arr \<noteq> 0 \<Longrightarrow> clk \<noteq> 0 \<Longrightarrow> configured (running arr clk ovf h)"
  by (simp add: running_simp configured_def)

text \<open>
  Claim C3, as the code has it by design, for every configuration with a nonzero
  frequency and every tick count. The interval getters return a \<open>uint32_t\<close>: in the
  exact case \<open>ticks / us_per_tick\<close> (respectively \<open>ticks / ns_per_tick\<close>); otherwise the
  product \<open>ticks * 1000000\<close> (respectively \<open>ticks * 1000000000\<close>) is formed in 64 bits,
  where it cannot overflow, is divided by the frequency, and the quotient is cut to the
  32-bit result type, so the value returned is
  \<open>floor (ticks * 1000000 / frequency) mod 2 ^ 32\<close>. \<open>TimerLib_GetTimestamp_us\<close> works on
  a 64-bit tick count: in the exact case it returns \<open>ticks / us_per_tick\<close>, and otherwise
  \<open>floor (ticks * 1000000 / frequency)\<close> whenever \<open>ticks * 1000000\<close> is below \<open>2 ^ 64\<close>.
\<close>

theorem conversion_values:
  assumes cfg: "configured m"
  shows "(calculate_ticks htim tr m = Done (ticks, tr', m') \<longrightarrow>
           (\<exists>us ns. result_of (TimerLib_GetInterval_us htim tr m) = Some us \<and>
                    result_of (TimerLib_GetInterval_ns htim tr m) = Some ns \<and>
                    unat us = (if us_optimized (optim m)
                               then unat ticks div unat (us_per_tick (optim m))
                               else (unat ticks * 1000000 div unat (clock_freq m)) mod 2 ^ 32) \<and>
                    unat ns = (if ns_optimized (optim m)
                               then unat ticks div unat (ns_per_tick (optim m))
                               else (unat ticks * 1000000000 div unat (clock_freq m)) mod 2 ^ 32))) \<and>
         (calculate_Timestamp tr m = Done (t, tr'', m'') \<longrightarrow>
           (\<exists>ts. result_of (TimerLib_GetTimestamp_us tr m) = Some ts \<and>
                 (us_optimized (optim m) \<longrightarrow>
                    unat ts = unat t div unat (us_per_tick (optim m))) \<and>
                 (\<not> us_optimized (optim m) \<and> unat t * 1000000 < 2 ^ 64 \<longrightarrow>
                    unat ts = unat t * 1000000 div unat (clock_freq m))))"
proof (intro conjI impI)
  assume ct: "calculate_ticks htim tr m = Done (ticks, tr', m')"
  have us: "unat (ucast ((ucast ticks :: u64) * 1000000 div ucast (clock_freq m)) :: u32)
              = (unat ticks * 1000000 div unat (clock_freq m)) mod 2 ^ 32"
    by (simp add: unat_ucast_down unat_div unat_widened_product unat_ucast_up)
  have ns: "unat (ucast ((ucast ticks :: u64) * 1000000000 div ucast (clock_freq m)) :: u32)
              = (unat ticks * 1000000000 div unat (clock_freq m)) mod 2 ^ 32"
    by (simp add: unat_ucast_down unat_div unat_widened_product unat_ucast_up)
  show "\<exists>us ns. result_of (TimerLib_GetInterval_us htim tr m) = Some us \<and>
                    result_of (TimerLib_GetInterval_ns htim tr m) = Some ns \<and>
                    unat us = (if us_optimized (optim m)
                               then unat ticks div unat (us_per_tick (optim m))
                               else (unat ticks * 1000000 div unat (clock_freq m)) mod 2 ^ 32) \<and>
                    unat ns = (if ns_optimized (optim m)
                               then unat ticks div unat (ns_per_tick (optim m))
                               else (unat ticks * 1000000000 div unat (clock_freq m)) mod 2 ^ 32)"
    unfolding interval_query_Done [OF ct cfg]
    using us ns by (simp add: unat_div)
next
  assume ct: "calculate_Timestamp tr m = Done (t, tr'', m'')"
  have "unat (t * 1000000 div ucast (clock_freq m)) = unat t * 1000000 div unat (clock_freq m)"
    if "unat t * 1000000 < 2 ^ 64"
    using that by (simp add: unat_div unat_word_ariths unat_ucast_up)
  then show "\<exists>ts. result_of (TimerLib_GetTimestamp_us tr m) = Some ts \<and>
                 (us_optimized (optim m) \<longrightarrow>
                    unat ts = unat t div unat (us_per_tick (optim m))) \<and>
                 (\<not> us_optimized (optim m) \<and> unat t * 1000000 < 2 ^ 64 \<longrightarrow>
                    unat ts = unat t * 1000000 div unat (clock_freq m))"
    unfolding timestamp_query_Done [OF ct cfg]
    by (simp add: unat_div unat_ucast_up)
qed

text \<open>
  Claim C3 as stated fails where the quotient does not fit the result type. At 32768 Hz
  with reload \<open>65536\<close>, a handle read 2500 overflows after its baseline has
  \<open>163840000\<close> ticks, that is \<open>5000000000\<close> microseconds; \<open>TimerLib_GetInterval_us\<close>
  returns \<open>705032704\<close>.
\<close>

theorem conversion_values_counterexample:
  "configured (running 65536 32768 2500 \<lparr>last_cnt = 0, last_overflow = 0\<rparr>) \<and>
   \<not> us_optimized (optim (running 65536 32768 2500 \<lparr>last_cnt = 0, last_overflow = 0\<rparr>)) \<and>
   clock_freq (running 65536 32768 2500 \<lparr>last_cnt = 0, last_overflow = 0\<rparr>) = 32768 \<and>
   result_of (calculate_ticks 0 [probe_at 0 0]
     (running 65536 32768 2500 \<lparr>last_cnt = 0, last_overflow = 0\<rparr>)) = Some 163840000 \<and>
   result_of (TimerLib_GetInterval_us 0 [probe_at 0 0]
     (running 65536 32768 2500 \<lparr>last_cnt = 0, last_overflow = 0\<rparr>)) = Some 705032704 \<and>
   (163840000 * 1000000) div 32768 = (5000000000 :: nat)"
  by (simp add: running_simp configured_def TimerLib_GetInterval_us_def calculate_ticks_def
      probe_at_def serve_irqs_eq Let_def c_div_def)

text \<open>
  Reload \<open>8000\<close> at 8 MHz: eight ticks are one microsecond, exactly. At 32768 Hz the
  timestamp of \<open>65536\<close> ticks is \<open>2000000\<close> microseconds.
\<close>

theorem conversion_values_witness:
  "configured (running 8000 8000000 0 \<lparr>last_cnt = 0, last_overflow = 0\<rparr>) \<and>
   calculate_ticks 0 [probe_at 0 8] (running 8000 8000000 0 \<lparr>last_cnt = 0, last_overflow = 0\<rparr>)
     = Done (8, [], (running 8000 8000000 0 \<lparr>last_cnt = 0, last_overflow = 0\<rparr>)
          \<lparr>heap := (\<lambda>a. \<lparr>last_cnt = 0, last_overflow = 0\<rparr>)(0 := \<lparr>last_cnt = 8, last_overflow = 0\<rparr>)\<rparr>) \<and>
   result_of (TimerLib_GetInterval_us 0 [probe_at 0 8]
     (running 8000 8000000 0 \<lparr>last_cnt = 0, last_overflow = 0\<rparr>)) = Some 1 \<and>
   calculate_Timestamp [probe_at 0 8] (running 8000 8000000 0 \<lparr>last_cnt = 0, last_overflow = 0\<rparr>)
     = Done (8, [], running 8000 8000000 0 \<lparr>last_cnt = 0, last_overflow = 0\<rparr>) \<and>
   result_of (TimerLib_GetTimestamp_us [probe_at 0 8]
     (running 8000 8000000 0 \<lparr>last_cnt = 0, last_overflow = 0\<rparr>)) = Some 1 \<and>
   configured (running 65536 32768 1 \<lparr>last_cnt = 0, last_overflow = 0\<rparr>) \<and>
   \<not> us_optimized (optim (running 65536 32768 1 \<lparr>last_cnt = 0, last_overflow = 0\<rparr>)) \<and>
   calculate_Timestamp [probe_at 0 0] (running 65536 32768 1 \<lparr>last_cnt = 0, last_overflow = 0\<rparr>)
     = Done (65536, [], running 65536 32768 1 \<lparr>last_cnt = 0, last_overflow = 0\<rparr>) \<and>
   result_of (TimerLib_GetTimestamp_us [probe_at 0 0]
     (running 65536 32768 1 \<lparr>last_cnt = 0, last_overflow = 0\<rparr>)) = Some 2000000"
proof -
  let ?m = "running 8000 8000000 0 \<lparr>last_cnt = 0, last_overflow = 0\<rparr>"
  let ?g = "running 65536 32768 1 \<lparr>last_cnt = 0, last_overflow = 0\<rparr>"
  have cfg: "configured ?m" and cfgg: "configured ?g" by (simp_all add: running_configured)
  have ct: "calculate_ticks 0 [probe_at 0 8] ?m
     = Done (8, [], ?m\<lparr>heap := (\<lambda>a. \<lparr>last_cnt = 0, last_overflow = 0\<rparr>)(0 := \<lparr>last_cnt = 8, last_overflow = 0\<rparr>)\<rparr>)"
    by (simp add: running_simp calculate_ticks_def probe_at_def serve_irqs_eq Let_def)
  have ts: "calculate_Timestamp [probe_at 0 8] ?m = Done (8, [], ?m)"
    by (simp add: running_simp calculate_Timestamp_def probe_at_def serve_irqs_eq Let_def)
  have tsg: "calculate_Timestamp [probe_at 0 0] ?g = Done (65536, [], ?g)"
    by (simp add: running_simp calculate_Timestamp_def probe_at_def serve_irqs_eq Let_def)
  have opt: "us_optimized (optim ?m)" "us_per_tick (optim ?m) = 8"
    by (simp_all add: running_simp)
  have optg: "\<not> us_optimized (optim ?g)" "clock_freq ?g = 32768"
    by (simp_all add: running_simp)
  from conversion_values [OF cfg, where htim = 0 and tr = "[probe_at 0 8]" and ticks = 8
      and tr' = "[]" and t = 8 and tr'' = "[]" and m'' = ?m
      and m' = "?m\<lparr>heap := (\<lambda>a. \<lparr>last_cnt = 0, last_overflow = 0\<rparr>)(0 := \<lparr>last_cnt = 8, last_overflow = 0\<rparr>)\<rparr>"]
    ct ts
  obtain us ts' where "result_of (TimerLib_GetInterval_us 0 [probe_at 0 8] ?m) = Some us"
    "unat us = 1" "result_of (TimerLib_GetTimestamp_us [probe_at 0 8] ?m) = Some ts'"
    "unat ts' = 1"
    by (auto simp: opt)
  then have a: "result_of (TimerLib_GetInterval_us 0 [probe_at 0 8] ?m) = Some 1"
    "result_of (TimerLib_GetTimestamp_us [probe_at 0 8] ?m) = Some 1"
    by (auto simp: word_unat_eq_iff)
  from conjunct2 [OF conversion_values [OF cfgg, where tr = "[probe_at 0 0]" and t = 65536
      and tr'' = "[]" and m'' = ?g and htim = 0 and ticks = 0 and tr' = "[]" and m' = ?g]] tsg
  obtain tg where "result_of (TimerLib_GetTimestamp_us [probe_at 0 0] ?g) = Some tg"
    "unat tg = 2000000"
    by (auto simp: optg)
  then have b: "result_of (TimerLib_GetTimestamp_us [probe_at 0 0] ?g) = Some 2000000"
    by (auto simp: word_unat_eq_iff)
  from cfg cfgg ct ts tsg a b optg show ?thesis by simp
qed

text \<open>
  In the other branch of \<open>TimerLib_GetTimestamp_us\<close> the product
  \<open>(uint64_t)ticks * 1000000\<close> has no wider type to go to. At 72.5 MHz with reload
  \<open>65536\<close> the timestamp is \<open>254437848650\<close> microseconds after \<open>281474976\<close> overflows
  and \<open>261\<close> microseconds one overflow later.
\<close>

lemma GetTimestamp_us_product_wraps:
  "\<not> us_optimized (optim (running 65536 72500000 281474976 \<lparr>last_cnt = 0, last_overflow = 0\<rparr>)) \<and>
   result_of (TimerLib_GetTimestamp_us [probe_at 0 0]
     (running 65536 72500000 281474976 \<lparr>last_cnt = 0, last_overflow = 0\<rparr>)) = Some 254437848650 \<and>
   result_of (TimerLib_GetTimestamp_us [probe_at 1 0]
     (running 65536 72500000 281474976 \<lparr>last_cnt = 0, last_overflow = 0\<rparr>)) = Some 261"
  by (simp add: running_simp TimerLib_GetTimestamp_us_def calculate_Timestamp_def
      probe_at_def serve_irqs_eq Let_def c_div_def)

section \<open>Target tick counts of the delays\<close>

lemma atomic_read_config:
  assumes "atomic_read tr m = Done (s, tr', m')"
  shows "optim m' = optim m" "clock_freq m' = clock_freq m" "arr_value m' = arr_value m"
    "heap m' = heap m"
  using atomic_read_cases [of tr m] assms by auto

text \<open>
  Claim C8, as the code has it by design. \<open>TimerLib_DelayUS\<close>, when the microsecond
  conversion is not exact, computes its target in 64 bits without overflow:
  \<open>floor (us * frequency / 1000000)\<close>. \<open>TimerLib_DelayUS_32\<close> computes its target in
  32-bit arithmetic: \<open>us * us_per_tick mod 2 ^ 32\<close> in the exact case, and otherwise
  \<open>(us * frequency mod 2 ^ 32) div 1000000\<close>. Both functions wait for the target so
  computed.
\<close>

theorem delay_targets:
  "(\<not> us_optimized (optim m) \<longrightarrow>
      unat (DelayUS_ticks m us) = unat us * unat (clock_freq m) div 1000000) \<and>
   unat (DelayUS_32_ticks m us) =
     (if us_optimized (optim m) then (unat us * unat (us_per_tick (optim m))) mod 2 ^ 32
      else ((unat us * unat (clock_freq m)) mod 2 ^ 32) div 1000000) \<and>
   TimerLib_DelayUS us tr m =
     obind (atomic_read tr m) (\<lambda>(start, tr0, m0).
       wait_loop (\<lambda>m' cur. (ucast (delay_elapsed (arr_value m') start cur) :: u64)
                              \<ge> DelayUS_ticks m us) tr0 m0) \<and>
   TimerLib_DelayUS_32 us tr m =
     obind (atomic_read tr m) (\<lambda>(start, tr0, m0).
       wait_loop (\<lambda>m' cur. delay_elapsed (arr_value m') start cur \<ge> DelayUS_32_ticks m us)
         tr0 m0)"
proof (intro conjI impI)
  assume "\<not> us_optimized (optim m)"
  moreover have "unat (ucast (clock_freq m) :: u64) \<le> 4294967296"
    using unat_u32_bound [of "clock_freq m"] by (simp add: unat_ucast_up)
  ultimately show "unat (DelayUS_ticks m us) = unat us * unat (clock_freq m) div 1000000"
    by (simp add: DelayUS_ticks_def unat_div unat_widened_product unat_ucast_up)
next
  show "unat (DelayUS_32_ticks m us) =
     (if us_optimized (optim m) then (unat us * unat (us_per_tick (optim m))) mod 2 ^ 32
      else ((unat us * unat (clock_freq m)) mod 2 ^ 32) div 1000000)"
    by (simp add: DelayUS_32_ticks_def unat_div unat_word_ariths)
next
  have "DelayUS_ticks m0 us = DelayUS_ticks m us"
    if "atomic_read tr m = Done (start, tr0, m0)" for start tr0 m0
    using atomic_read_config [OF that] by (simp add: DelayUS_ticks_def)
  then show "TimerLib_DelayUS us tr m =
     obind (atomic_read tr m) (\<lambda>(start, tr0, m0).
       wait_loop (\<lambda>m' cur. (ucast (delay_elapsed (arr_value m') start cur) :: u64)
                              \<ge> DelayUS_ticks m us) tr0 m0)"
    by (cases "atomic_read tr m") (auto simp: TimerLib_DelayUS_def Let_def)
next
  have "DelayUS_32_ticks m0 us = DelayUS_32_ticks m us"
    if "atomic_read tr m = Done (start, tr0, m0)" for start tr0 m0
    using atomic_read_config [OF that] by (simp add: DelayUS_32_ticks_def)
  then show "TimerLib_DelayUS_32 us tr m =
     obind (atomic_read tr m) (\<lambda>(start, tr0, m0).
       wait_loop (\<lambda>m' cur. delay_elapsed (arr_value m') start cur \<ge> DelayUS_32_ticks m us)
         tr0 m0)"
    by (cases "atomic_read tr m") (auto simp: TimerLib_DelayUS_32_def Let_def)
qed

text \<open>A 5000 microsecond delay at 999999 Hz: \<open>TimerLib_DelayUS\<close> waits for 4999 ticks.\<close>

theorem delay_targets_witness:
  "\<not> us_optimized (optim (running 65536 999999 0 \<lparr>last_cnt = 0, last_overflow = 0\<rparr>)) \<and>
   unat (DelayUS_ticks (running 65536 999999 0 \<lparr>last_cnt = 0, last_overflow = 0\<rparr>) 5000) = 4999"
proof -
  let ?m = "running 65536 999999 0 \<lparr>last_cnt = 0, last_overflow = 0\<rparr>"
  have n: "\<not> us_optimized (optim ?m)" and f: "clock_freq ?m = 999999"
    by (simp_all add: running_simp)
  from delay_targets [of ?m 5000] n show ?thesis by (simp add: f)
qed

text \<open>
  Claim C8 as stated fails for the 32-bit variant: for the same request
  \<open>TimerLib_DelayUS_32\<close> forms \<open>5000 * 999999\<close> in 32 bits and waits for 705 ticks
  instead of 4999.
\<close>

theorem delay_targets_counterexample:
  "\<not> us_optimized (optim (running 65536 999999 0 \<lparr>last_cnt = 0, last_overflow = 0\<rparr>)) \<and>
   clock_freq (running 65536 999999 0 \<lparr>last_cnt = 0, last_overflow = 0\<rparr>) = 999999 \<and>
   DelayUS_32_ticks (running 65536 999999 0 \<lparr>last_cnt = 0, last_overflow = 0\<rparr>) 5000 = 705 \<and>
   (5000 * 999999) div 1000000 = (4999 :: nat)"
  by (simp add: running_simp DelayUS_32_ticks_def)

text \<open>
  In the exact branch of \<open>TimerLib_DelayUS\<close> the product \<open>us * optim.us_per_tick\<close> is
  formed from two \<open>uint32_t\<close> operands before it is stored in the 64-bit target, unlike
  the other branch, which casts first. A 600 second delay at 8 MHz needs
  \<open>4800000000\<close> ticks; the target becomes \<open>505032704\<close>.
\<close>

lemma DelayUS_exact_product_wraps:
  "us_optimized (optim (running 65536 8000000 0 \<lparr>last_cnt = 0, last_overflow = 0\<rparr>)) \<and>
   us_per_tick (optim (running 65536 8000000 0 \<lparr>last_cnt = 0, last_overflow = 0\<rparr>)) = 8 \<and>
   DelayUS_ticks (running 65536 8000000 0 \<lparr>last_cnt = 0, last_overflow = 0\<rparr>) 600000000
     = 505032704"
  by (simp add: running_simp DelayUS_ticks_def)

section \<open>The wait loops\<close>

lemma polls_Done:
  "atomic_read tr m = Done (cur, tr', m') \<Longrightarrow> polls tr m = (cur, tr', m') # polls tr' m'"
  by (subst polls.simps) simp

lemma polls_Waiting: "atomic_read tr m = Waiting \<Longrightarrow> polls tr m = []"
  by (subst polls.simps) simp

lemma wait_loop_find:
  "wait_loop reached tr m =
     (case find (\<lambda>p. reached (snd (snd p)) (fst p)) (polls tr m) of
        None \<Rightarrow> Waiting
      | Some p \<Rightarrow> Done (snd p))"
proof (induction reached tr m rule: wait_loop.induct)
  case (1 reached tr m)
  from atomic_read_cases [of tr m] show ?case
  proof
    assume w: "atomic_read tr m = Waiting"
    then show ?thesis by (simp add: wait_loop.simps [of reached tr m] polls_Waiting)
  next
    assume "\<exists>cc co tr'. atomic_read tr m = Done ((cc, co), tr', m\<lparr>overflow_counter := co\<rparr>)"
    then obtain cur tr' m' where rd: "atomic_read tr m = Done (cur, tr', m')" by blast
    show ?thesis
    proof (cases "reached m' cur")
      case True
      with rd show ?thesis by (simp add: wait_loop.simps [of reached tr m] polls_Done)
    next
      case False
      with rd "1.IH" [OF rd refl refl False] show ?thesis
        by (simp add: wait_loop.simps [of reached tr m] polls_Done)
    qed
  qed
qed

lemma wait_loop_Done_iff:
  "wait_loop reached tr m = Done (tr', m') \<longleftrightarrow>
     (\<exists>i<length (polls tr m).
        snd (polls tr m ! i) = (tr', m') \<and> reached m' (fst (polls tr m ! i)) \<and>
        (\<forall>j<i. \<not> reached (snd (snd (polls tr m ! j))) (fst (polls tr m ! j))))"
  (is "?L \<longleftrightarrow> ?R")
proof -
  let ?P = "\<lambda>p. reached (snd (snd p)) (fst p)"
  let ?ps = "polls tr m"
  have "?L \<longleftrightarrow> (\<exists>p. find ?P ?ps = Some p \<and> snd p = (tr', m'))"
    unfolding wait_loop_find by (cases "find ?P ?ps") simp_all
  also have "\<dots> \<longleftrightarrow> (\<exists>i<length ?ps. ?P (?ps ! i) \<and> snd (?ps ! i) = (tr', m') \<and>
                          (\<forall>j<i. \<not> ?P (?ps ! j)))"
    unfolding find_Some_iff by blast
  also have "\<dots> \<longleftrightarrow> ?R"
    apply (rule iffI)
     apply clarify
     apply (rule_tac x = i in exI)
     apply simp
    apply clarify
    apply (rule_tac x = i in exI)
    apply simp
    done
  finally show ?thesis .
qed

lemma wait_loop_Waiting_iff:
  "wait_loop reached tr m = Waiting \<longleftrightarrow>
     (\<forall>p \<in> set (polls tr m). \<not> reached (snd (snd p)) (fst p))"
proof -
  let ?P = "\<lambda>p. reached (snd (snd p)) (fst p)"
  have "wait_loop reached tr m = Waiting \<longleftrightarrow> find ?P (polls tr m) = None"
    unfolding wait_loop_find by (cases "find ?P (polls tr m)") simp_all
  also have "\<dots> \<longleftrightarrow> \<not> (\<exists>p. p \<in> set (polls tr m) \<and> ?P p)"
    by (rule find_None_iff)
  finally show ?thesis by blast
qed

lemma wait_loop_no_trap: "wait_loop reached tr m \<noteq> Trap e"
  unfolding wait_loop_find by (cases "find (\<lambda>p. reached (snd (snd p)) (fst p)) (polls tr m)") simp_all


lemma polls_config:
  "p \<in> set (polls tr m) \<Longrightarrow>
     arr_value (snd (snd p)) = arr_value m \<and> optim (snd (snd p)) = optim m \<and>
     clock_freq (snd (snd p)) = clock_freq m \<and> heap (snd (snd p)) = heap m"
proof (induction tr m rule: polls.induct)
  case (1 tr m)
  from atomic_read_cases [of tr m] show ?case
  proof
    assume "atomic_read tr m = Waiting"
    with "1.prems" show ?thesis by (simp add: polls_Waiting)
  next
    assume "\<exists>cc co tr'. atomic_read tr m = Done ((cc, co), tr', m\<lparr>overflow_counter := co\<rparr>)"
    then obtain cc co tr' where rd: "atomic_read tr m = Done ((cc, co), tr', m\<lparr>overflow_counter := co\<rparr>)"
      by blast
    from "1.prems" polls_Done [OF rd]
    have "p = ((cc, co), tr', m\<lparr>overflow_counter := co\<rparr>) \<or> p \<in> set (polls tr' (m\<lparr>overflow_counter := co\<rparr>))"
      by simp
    then show ?thesis
    proof
      assume "p = ((cc, co), tr', m\<lparr>overflow_counter := co\<rparr>)"
      then show ?thesis by simp
    next
      assume "p \<in> set (polls tr' (m\<lparr>overflow_counter := co\<rparr>))"
      from "1.IH" [OF rd refl refl this] show ?thesis by simp
    qed
  qed
qed

lemma delay_elapsed_eq:
  "unat (delay_elapsed arr start cur) = elapsed_since arr start cur"
proof -
  obtain sc so cc co where s: "start = (sc, so)" and c: "cur = (cc, co)"
    by (metis prod.exhaust)
  have "delay_elapsed arr (sc, so) (cc, co)
      = (if cc \<ge> sc then (co - so) * arr + (cc - sc)
         else (co - so - 1) * arr + ((arr - sc) + cc))"
    by (simp add: delay_elapsed_def left_diff_distrib)
  then have "delay_elapsed arr (sc, so) (cc, co)
      = word_of_int (ElapsedTicks_spec (uint arr) (uint sc, uint so) (uint cc, uint co))"
    unfolding ticks_word_of_int .
  then show ?thesis
    by (simp add: s c elapsed_since_def unat_eq_nat_uint uint_word_of_int)
qed

lemma wide_le_iff:
  "((T :: u64) \<le> ucast (x :: u32)) = (unat T \<le> unat x)"
  by (simp add: word_le_nat_alt unat_ucast_up)


lemma wait_loop_threshold:
  assumes eq: "\<And>p. p \<in> set (polls tr0 m0) \<Longrightarrow>
                 reached (snd (snd p)) (fst p) = (T \<le> E (fst p))"
  shows "wait_loop reached tr0 m0 = Done out \<longleftrightarrow> first_reached T E (polls tr0 m0) out"
    and "wait_loop reached tr0 m0 = Waiting \<longleftrightarrow> never_reached T E (polls tr0 m0)"
proof -
  let ?ps = "polls tr0 m0"
  obtain tr' m' where out: "out = (tr', m')" by (cases out)
  have eqi: "reached (snd (snd (?ps ! i))) (fst (?ps ! i)) = (T \<le> E (fst (?ps ! i)))"
    if "i < length ?ps" for i
    using that by (intro eq) simp
  show "wait_loop reached tr0 m0 = Waiting \<longleftrightarrow> never_reached T E ?ps"
    unfolding wait_loop_Waiting_iff never_reached_def using eq by (auto simp: not_le)
  show "wait_loop reached tr0 m0 = Done out \<longleftrightarrow> first_reached T E ?ps out"
    unfolding out wait_loop_Done_iff first_reached_def
    apply (rule iffI)
     apply clarify
     apply (rule_tac x = i in exI)
     apply (frule eqi)
     apply (simp add: not_le [symmetric] eqi)
    apply clarify
    apply (rule_tac x = i in exI)
    apply (frule eqi)
    apply (simp add: not_le [symmetric] eqi)
    done
qed

lemma wide_reached:
  assumes "p \<in> set (polls tr0 m0)"
  shows "((T :: u64) \<le> ucast (delay_elapsed (arr_value (snd (snd p))) start (fst p)))
           = (unat T \<le> elapsed_since (arr_value m0) start (fst p))"
  using polls_config [OF assms] by (simp add: wide_le_iff delay_elapsed_eq)

text \<open>
  The wait loops of \<open>TimerLib_DelayUS\<close> and \<open>TimerLib_DelayNS\<close> compare the target with
  the 32-bit elapsed count \<open>elapsed_since\<close>: they return exactly at the first poll at which
  it has reached the target.
\<close>

lemma delay_spin_32:
  assumes start: "atomic_read tr m = Done (start, tr0, m0)"
  shows "(TimerLib_DelayUS us tr m = Done out \<longleftrightarrow>
            first_reached (unat (DelayUS_ticks m us)) (elapsed_since (arr_value m) start)
              (polls tr0 m0) out) \<and>
         (TimerLib_DelayUS us tr m = Waiting \<longleftrightarrow>
            never_reached (unat (DelayUS_ticks m us)) (elapsed_since (arr_value m) start)
              (polls tr0 m0)) \<and>
         (TimerLib_DelayNS ns tr m = Done out \<longleftrightarrow>
            first_reached (unat (DelayNS_ticks m ns)) (elapsed_since (arr_value m) start)
              (polls tr0 m0) out) \<and>
         (TimerLib_DelayNS ns tr m = Waiting \<longleftrightarrow>
            never_reached (unat (DelayNS_ticks m ns)) (elapsed_since (arr_value m) start)
              (polls tr0 m0))"
proof -
  note cfg = atomic_read_config [OF start]
  have us: "DelayUS_ticks m0 us = DelayUS_ticks m us" by (simp add: DelayUS_ticks_def cfg)
  have ns: "DelayNS_ticks m0 ns = DelayNS_ticks m ns" by (simp add: DelayNS_ticks_def cfg)
  have U: "TimerLib_DelayUS us tr m =
      wait_loop (\<lambda>m' cur. DelayUS_ticks m us \<le> ucast (delay_elapsed (arr_value m') start cur)) tr0 m0"
    by (simp add: TimerLib_DelayUS_def start us)
  have N: "TimerLib_DelayNS ns tr m =
      wait_loop (\<lambda>m' cur. DelayNS_ticks m ns \<le> ucast (delay_elapsed (arr_value m') start cur)) tr0 m0"
    by (simp add: TimerLib_DelayNS_def start ns)
  show ?thesis
    unfolding U N cfg(3) [symmetric]
    by (intro conjI wait_loop_threshold wide_reached)
qed


lemma polls_Nil: "polls [] m = []"
  by (simp add: polls_Waiting)

lemma atomic_read_probe_at:
  "atomic_read (probe_at n c # tr) m =
     Done ((c, overflow_counter m + of_nat n), tr,
           m\<lparr>overflow_counter := overflow_counter m + of_nat n\<rparr>)"
  by (simp add: probe_at_def serve_irqs_eq Let_def)

lemma polls_probe_at:
  "polls (probe_at n c # tr) m =
     ((c, overflow_counter m + of_nat n), tr, m\<lparr>overflow_counter := overflow_counter m + of_nat n\<rparr>)
       # polls tr (m\<lparr>overflow_counter := overflow_counter m + of_nat n\<rparr>)"
  by (rule polls_Done) (rule atomic_read_probe_at)







section \<open>The short delay\<close>

lemma short_reached:
  assumes "p \<in> set (polls tr0 m0)"
  shows "((T :: u32) \<le> short_elapsed (arr_value (snd (snd p))) start (fst p))
           = (unat T \<le> unat (short_elapsed (arr_value m0) start (fst p)))"
  using polls_config [OF assms] by (simp add: word_le_nat_alt)

text \<open>
  Once its start sample is read, \<open>TimerLib_DelayUS_32Short\<close> checks the request.
  Unless \<open>us_optimized\<close> holds, \<open>us < 1000\<close> and \<open>overflowPreMS \<le> 1\<close>, it returns \<open>-1\<close>
  at once: the trace and the state are the ones the start read left, so the wait loop
  was not entered and the simplified formula was not evaluated. When the three
  conditions hold, it returns only \<open>0\<close>, and exactly at the first poll whose elapsed
  count by the simplified one-wrap formula has reached \<open>us * us_per_tick\<close>; while every
  poll is below that target it has not returned.
\<close>

lemma DelayUS_32Short_loop:
  fixes us :: u32
  assumes start: "atomic_read tr m = Done (start, tr0, m0)"
  defines "supported \<equiv> us_optimized (optim m) \<and> us < 1000 \<and> overflowPreMS (optim m) \<le> 1"
  defines "target \<equiv> unat (us * us_per_tick (optim m))"
  defines "elapsed \<equiv> (\<lambda>cur. unat (short_elapsed (arr_value m) start cur))"
  shows "(\<not> supported \<longrightarrow> TimerLib_DelayUS_32Short us tr m = Done (- 1, tr0, m0)) \<and>
         (supported \<longrightarrow>
            (TimerLib_DelayUS_32Short us tr m = Done (r, out) \<longleftrightarrow>
               r = 0 \<and> first_reached target elapsed (polls tr0 m0) out) \<and>
            (TimerLib_DelayUS_32Short us tr m = Waiting \<longleftrightarrow>
               never_reached target elapsed (polls tr0 m0)))"
proof (intro conjI impI)
  note cfg = atomic_read_config [OF start]
  {
    assume "\<not> supported"
    then show "TimerLib_DelayUS_32Short us tr m = Done (- 1, tr0, m0)"
      by (auto simp: TimerLib_DelayUS_32Short_def start cfg supported_def)
  }
  assume sup: supported
  let ?loop = "wait_loop (\<lambda>m' cur. us * us_per_tick (optim m) \<le> short_elapsed (arr_value m') start cur) tr0 m0"
  have S: "TimerLib_DelayUS_32Short us tr m = obind ?loop (\<lambda>(tr', m'). Done (0, tr', m'))"
    using sup by (simp add: TimerLib_DelayUS_32Short_def start cfg supported_def Let_def)
  have D: "?loop = Done out \<longleftrightarrow> first_reached target elapsed (polls tr0 m0) out"
    unfolding target_def elapsed_def cfg(3) [symmetric]
    by (intro wait_loop_threshold short_reached)
  have W: "?loop = Waiting \<longleftrightarrow> never_reached target elapsed (polls tr0 m0)"
    unfolding target_def elapsed_def cfg(3) [symmetric]
    by (intro wait_loop_threshold short_reached)
  show "TimerLib_DelayUS_32Short us tr m = Done (r, out) \<longleftrightarrow>
               r = 0 \<and> first_reached target elapsed (polls tr0 m0) out"
    unfolding S D [symmetric] by (cases ?loop) (auto)
  show "TimerLib_DelayUS_32Short us tr m = Waiting \<longleftrightarrow>
               never_reached target elapsed (polls tr0 m0)"
    unfolding S W [symmetric] by (cases ?loop) (auto)
qed

text \<open>
  Reload \<open>8000\<close> at 8 MHz, so that \<open>overflowPreMS = 1\<close>. A request of 999 microseconds
  (7992 ticks) started at counter value 100 goes on at 5000 and returns \<open>0\<close> after one
  wrap at counter value 200; a request of 1500 microseconds returns \<open>-1\<close> with the rest
  of the trace unread.
\<close>

lemma DelayUS_32Short_example:
  "atomic_read [probe_at 0 100, probe_at 0 5000, probe_at 1 200, probe_at 0 300]
       (running 8000 8000000 0 \<lparr>last_cnt = 0, last_overflow = 0\<rparr>)
     = Done ((100, 0), [probe_at 0 5000, probe_at 1 200, probe_at 0 300],
             running 8000 8000000 0 \<lparr>last_cnt = 0, last_overflow = 0\<rparr>) \<and>
   overflowPreMS (optim (running 8000 8000000 0 \<lparr>last_cnt = 0, last_overflow = 0\<rparr>)) = 1 \<and>
   TimerLib_DelayUS_32Short 999
       [probe_at 0 100, probe_at 0 5000, probe_at 1 200, probe_at 0 300]
       (running 8000 8000000 0 \<lparr>last_cnt = 0, last_overflow = 0\<rparr>)
     = Done (0, [probe_at 0 300], running 8000 8000000 1 \<lparr>last_cnt = 0, last_overflow = 0\<rparr>) \<and>
   TimerLib_DelayUS_32Short 1500
       [probe_at 0 100, probe_at 0 5000, probe_at 1 200, probe_at 0 300]
       (running 8000 8000000 0 \<lparr>last_cnt = 0, last_overflow = 0\<rparr>)
     = Done (- 1, [probe_at 0 5000, probe_at 1 200, probe_at 0 300],
             running 8000 8000000 0 \<lparr>last_cnt = 0, last_overflow = 0\<rparr>)"
proof -
  let ?m = "running 8000 8000000 0 \<lparr>last_cnt = 0, last_overflow = 0\<rparr>"
  let ?m1 = "running 8000 8000000 1 \<lparr>last_cnt = 0, last_overflow = 0\<rparr>"
  let ?rest = "[probe_at 0 5000, probe_at 1 200, probe_at 0 300]"
  have m: "?m\<lparr>overflow_counter := 0\<rparr> = ?m" "overflow_counter ?m = 0" "arr_value ?m = 8000"
    "?m\<lparr>overflow_counter := 1\<rparr> = ?m1" "overflow_counter ?m1 = 1"
    "?m1\<lparr>overflow_counter := 1\<rparr> = ?m1"
    by (simp_all add: running_simp)
  have opt: "us_optimized (optim ?m)" "us_per_tick (optim ?m) = 8" "overflowPreMS (optim ?m) = 1"
    by (simp_all add: running_simp)
  have rd: "atomic_read (probe_at 0 100 # ?rest) ?m = Done ((100, 0), ?rest, ?m)"
    unfolding atomic_read_probe_at by (simp add: m)
  have ps: "polls ?rest ?m = [((5000, 0), [probe_at 1 200, probe_at 0 300], ?m),
      ((200, 1), [probe_at 0 300], ?m1), ((300, 1), [], ?m1)]"
    by (simp add: polls_probe_at polls_Nil m)
  have E: "short_elapsed 8000 (100, 0) (5000, 0) = 4900"
    "short_elapsed 8000 (100, 0) (200, 1) = 8100"
    by (simp_all add: short_elapsed_def)
  have "first_reached 7992 (\<lambda>cur. unat (short_elapsed 8000 (100, 0) cur)) (polls ?rest ?m)
          ([probe_at 0 300], ?m1)"
    unfolding first_reached_def ps
    by (rule exI [of _ 1]) (simp add: E)
  with DelayUS_32Short_loop [OF rd, of 999 0 "([probe_at 0 300], ?m1)"]
  have ok: "TimerLib_DelayUS_32Short 999 (probe_at 0 100 # ?rest) ?m = Done (0, [probe_at 0 300], ?m1)"
    by (simp add: opt m)
  from DelayUS_32Short_loop [OF rd, of 1500]
  have "TimerLib_DelayUS_32Short 1500 (probe_at 0 100 # ?rest) ?m = Done (- 1, ?rest, ?m)"
    by (simp add: opt)
  with rd ok opt show ?thesis by simp
qed

lemma short_elapsed_capped:
  fixes c o' so :: u32
  assumes "c < 4002" "so < o' \<or> 100 \<le> c"
  shows "unat (short_elapsed 4002 (100, so) (c, o')) < 7904"
proof (cases "so < o'")
  case True
  then have "short_elapsed 4002 (100, so) (c, o') = 3902 + c"
    by (simp add: short_elapsed_def)
  moreover have "unat (3902 + c) = 3902 + unat c"
    using assms(1) by (simp add: unat_word_ariths word_less_nat_alt)
  ultimately show ?thesis using assms(1) by (simp add: word_less_nat_alt)
next
  case False
  then have le: "100 \<le> c" using assms(2) by simp
  from False have "short_elapsed 4002 (100, so) (c, o') = c - 100"
    by (simp add: short_elapsed_def)
  moreover have "unat (c - 100) = unat c - 100"
    using le by (simp add: unat_sub)
  ultimately show ?thesis using assms(1) by (simp add: word_less_nat_alt)
qed

text \<open>
  Claim C4. With reload \<open>4002\<close> at 8 MHz, a request of 999 microseconds passes the
  check of \<open>TimerLib_DelayUS_32Short\<close>: \<open>us_optimized\<close> holds, \<open>999 < 1000\<close>, and
  \<open>overflowPreMS\<close> is \<open>8000000 / 4002 / 1000 = 1\<close> by integer division, although the
  counter wraps almost twice in a millisecond. The target is \<open>7992\<close> ticks. Started at
  counter value \<open>100\<close>, the simplified formula yields at most
  \<open>(4002 - 100) + 4001 = 7903\<close> on a reading below the reload value, so the call does
  not return \<open>0\<close>: it is still waiting at the end of every trace whose readings are
  below the reload value and, while the overflow count is not above the start's, not
  below the start count.
\<close>

theorem DelayUS_32Short_never_returns:
  fixes so :: u32
  assumes start: "atomic_read tr (running 4002 8000000 ovf h) = Done ((100, so), tr0, m0)"
    and polled: "\<forall>p \<in> set (polls tr0 m0).
                   fst (fst p) < 4002 \<and> (so < snd (fst p) \<or> 100 \<le> fst (fst p))"
  shows "us_optimized (optim (running 4002 8000000 ovf h)) \<and>
         overflowPreMS (optim (running 4002 8000000 ovf h)) = 1 \<and>
         999 * us_per_tick (optim (running 4002 8000000 ovf h)) = 7992 \<and>
         TimerLib_DelayUS_32Short 999 tr (running 4002 8000000 ovf h) = Waiting"
proof -
  let ?m = "running 4002 8000000 ovf h"
  have opt: "us_optimized (optim ?m)" "overflowPreMS (optim ?m) = 1"
    "us_per_tick (optim ?m) = 8" "arr_value ?m = 4002"
    by (simp_all add: running_simp)
  have "never_reached (unat (999 * us_per_tick (optim ?m)))
          (\<lambda>cur. unat (short_elapsed (arr_value ?m) (100, so) cur)) (polls tr0 m0)"
    unfolding never_reached_def opt
  proof
    fix p assume p: "p \<in> set (polls tr0 m0)"
    obtain c o' where f: "fst p = (c, o')" by (cases "fst p")
    from polled p f have "c < 4002" "so < o' \<or> 100 \<le> c" by auto
    from short_elapsed_capped [OF this]
    show "unat (short_elapsed 4002 (100, so) (fst p)) < unat (999 * 8 :: u32)"
      by (simp add: f)
  qed
  with DelayUS_32Short_loop [OF start, of 999]
  have "TimerLib_DelayUS_32Short 999 tr ?m = Waiting" by (simp add: opt)
  with opt show ?thesis by simp
qed

text \<open>
  Such a run. The polls read \<open>(4001, 0)\<close>, \<open>(0, 1)\<close>, \<open>(4001, 1)\<close>, \<open>(89, 2)\<close> and
  \<open>(4001, 2)\<close>; the simplified formula gives 3901, 3902, 7903, 3991 and 7903. At
  \<open>(89, 2)\<close> two wraps have occurred and 7993 ticks have elapsed by section 4.3:
  \<open>TimerLib_DelayUS\<close> returns there for the same request on the same trace, while
  \<open>TimerLib_DelayUS_32Short\<close> is still waiting after the last poll.
\<close>

theorem DelayUS_32Short_never_returns_witness:
  "atomic_read [probe_at 0 100, probe_at 0 4001, probe_at 1 0, probe_at 0 4001, probe_at 1 89,
                probe_at 0 4001]
       (running 4002 8000000 0 \<lparr>last_cnt = 0, last_overflow = 0\<rparr>)
     = Done ((100, 0), [probe_at 0 4001, probe_at 1 0, probe_at 0 4001, probe_at 1 89, probe_at 0 4001],
             running 4002 8000000 0 \<lparr>last_cnt = 0, last_overflow = 0\<rparr>) \<and>
   map fst (polls [probe_at 0 4001, probe_at 1 0, probe_at 0 4001, probe_at 1 89, probe_at 0 4001]
       (running 4002 8000000 0 \<lparr>last_cnt = 0, last_overflow = 0\<rparr>))
     = [(4001, 0), (0, 1), (4001, 1), (89, 2), (4001, 2)] \<and>
   map (\<lambda>cur. unat (short_elapsed 4002 (100, 0) cur))
       [(4001, 0), (0, 1), (4001, 1), (89, 2), (4001, 2)]
     = [3901, 3902, 7903, 3991, 7903] \<and>
   count_4_3 4002 (100, 0) (89, 2) = 7993 \<and>
   overflowPreMS (optim (running 4002 8000000 0 \<lparr>last_cnt = 0, last_overflow = 0\<rparr>)) = 1 \<and>
   TimerLib_DelayUS_32Short 999
       [probe_at 0 100, probe_at 0 4001, probe_at 1 0, probe_at 0 4001, probe_at 1 89, probe_at 0 4001]
       (running 4002 8000000 0 \<lparr>last_cnt = 0, last_overflow = 0\<rparr>) = Waiting \<and>
   TimerLib_DelayUS 999
       [probe_at 0 100, probe_at 0 4001, probe_at 1 0, probe_at 0 4001, probe_at 1 89, probe_at 0 4001]
       (running 4002 8000000 0 \<lparr>last_cnt = 0, last_overflow = 0\<rparr>)
     = Done ([probe_at 0 4001], running 4002 8000000 2 \<lparr>last_cnt = 0, last_overflow = 0\<rparr>)"
proof -
  let ?m = "running 4002 8000000 0 \<lparr>last_cnt = 0, last_overflow = 0\<rparr>"
  let ?m1 = "running 4002 8000000 1 \<lparr>last_cnt = 0, last_overflow = 0\<rparr>"
  let ?m2 = "running 4002 8000000 2 \<lparr>last_cnt = 0, last_overflow = 0\<rparr>"
  let ?rest = "[probe_at 0 4001, probe_at 1 0, probe_at 0 4001, probe_at 1 89, probe_at 0 4001]"
  have m: "?m\<lparr>overflow_counter := 0\<rparr> = ?m" "overflow_counter ?m = 0"
    "?m\<lparr>overflow_counter := 1\<rparr> = ?m1" "overflow_counter ?m1 = 1"
    "?m1\<lparr>overflow_counter := 1\<rparr> = ?m1"
    "?m1\<lparr>overflow_counter := 2\<rparr> = ?m2" "overflow_counter ?m2 = 2"
    "?m2\<lparr>overflow_counter := 2\<rparr> = ?m2" "arr_value ?m = 4002"
    by (simp_all add: running_simp)
  have rd: "atomic_read (probe_at 0 100 # ?rest) ?m = Done ((100, 0), ?rest, ?m)"
    unfolding atomic_read_probe_at by (simp add: m)
  have ps: "polls ?rest ?m =
      [((4001, 0), [probe_at 1 0, probe_at 0 4001, probe_at 1 89, probe_at 0 4001], ?m),
       ((0, 1), [probe_at 0 4001, probe_at 1 89, probe_at 0 4001], ?m1),
       ((4001, 1), [probe_at 1 89, probe_at 0 4001], ?m1),
       ((89, 2), [probe_at 0 4001], ?m2),
       ((4001, 2), [], ?m2)]"
    by (simp add: polls_probe_at polls_Nil m)
  have c: "count_4_3 4002 (100, 0) (89, 2) = 7993"
    by (simp add: count_4_3_def ElapsedTicks_spec_def)
  have se: "map (\<lambda>cur. unat (short_elapsed 4002 (100, 0) cur))
       [(4001, 0), (0, 1), (4001, 1), (89, 2), (4001, 2)] = [3901, 3902, 7903, 3991, 7903]"
    by (simp add: short_elapsed_def)
  have "\<forall>p \<in> set (polls ?rest ?m).
          fst (fst p) < 4002 \<and> ((0 :: u32) < snd (fst p) \<or> 100 \<le> fst (fst p))"
    unfolding ps by simp
  from DelayUS_32Short_never_returns [OF rd this]
  have w: "overflowPreMS (optim ?m) = 1"
    "TimerLib_DelayUS_32Short 999 (probe_at 0 100 # ?rest) ?m = Waiting"
    by simp_all
  have fs: "map fst (polls ?rest ?m) = [(4001, 0), (0, 1), (4001, 1), (89, 2), (4001, 2)]"
    unfolding ps by simp
  have T: "DelayUS_ticks ?m 999 = 7992" by (simp add: DelayUS_ticks_def running_simp)
  have E: "elapsed_since 4002 (100, 0) (4001, 0) = 3901" "elapsed_since 4002 (100, 0) (0, 1) = 3902"
    "elapsed_since 4002 (100, 0) (4001, 1) = 7903" "elapsed_since 4002 (100, 0) (89, 2) = 7993"
    by (simp_all add: elapsed_since_def ElapsedTicks_spec_def)
  have "first_reached 7992 (elapsed_since 4002 (100, 0)) (polls ?rest ?m) ([probe_at 0 4001], ?m2)"
    unfolding first_reached_def ps
    by (rule exI [of _ 3]) (simp add: E less_Suc_eq numeral_3_eq_3)
  with delay_spin_32 [OF rd, of 999 "([probe_at 0 4001], ?m2)"]
  have full: "TimerLib_DelayUS 999 (probe_at 0 100 # ?rest) ?m = Done ([probe_at 0 4001], ?m2)"
    by (simp add: T m)
  from rd fs se c w full show ?thesis by (simp only: simp_thms)
qed

section \<open>Timestamps\<close>

lemma serve_irqs_add: "serve_irqs a (serve_irqs b m) = serve_irqs (a + b) m"
  by (simp add: serve_irqs_def funpow_add)

lemma irq_count_simps [simp]:
  "irq_count [] = 0"
  "irq_count (p # tr) = irq_pre p + irq_mid p + irq_post p + irq_count tr"
  "irq_count (xs @ ys) = irq_count xs + irq_count ys"
  by (simp_all add: irq_count_def)

lemma atomic_read_served:
  assumes "atomic_read tr m = Done (s, tr', m')"
  shows "\<exists>pre. tr = pre @ tr' \<and> m' = serve_irqs (irq_count pre) m"
  using assms
proof (induction tr arbitrary: m)
  case Nil
  then show ?case by simp
next
  case (Cons p tr)
  let ?m3 = "serve_irqs (irq_post p) (serve_irqs (irq_mid p) (serve_irqs (irq_pre p) m))"
  have m3: "?m3 = serve_irqs (irq_count [p]) m"
    by (simp add: serve_irqs_add add.commute add.left_commute)
  show ?case
  proof (cases "overflow_counter (serve_irqs (irq_pre p) m) = overflow_counter ?m3")
    case True
    with Cons.prems have "tr' = tr" "m' = ?m3" by (simp_all add: Let_def)
    with m3 have "p # tr = [p] @ tr' \<and> m' = serve_irqs (irq_count [p]) m" by simp
    then show ?thesis by blast
  next
    case False
    with Cons.prems have "atomic_read tr ?m3 = Done (s, tr', m')" by (simp add: Let_def)
    from Cons.IH [OF this] obtain pre where pre: "tr = pre @ tr'" "m' = serve_irqs (irq_count pre) ?m3"
      by blast
    have "m' = serve_irqs (irq_count (p # pre)) m"
      unfolding pre(2) m3 by (simp add: serve_irqs_add add.commute)
    with pre(1) have "p # tr = (p # pre) @ tr' \<and> m' = serve_irqs (irq_count (p # pre)) m"
      by simp
    then show ?thesis by blast
  qed
qed

lemma unat_cumulative:
  fixes co arr cc :: u32
  shows "unat ((ucast co :: u64) * ucast arr + ucast cc) = unat co * unat arr + unat cc"
proof -
  have b: "unat co < 4294967296" "unat arr < 4294967296" "unat cc < 4294967296"
    by (rule unat_u32_bound)+
  have "unat (ucast arr :: u64) \<le> 4294967296" using b(2) by (simp add: unat_ucast_up)
  then have p: "unat ((ucast co :: u64) * ucast arr) = unat co * unat arr"
    by (simp add: unat_widened_product unat_ucast_up)
  have "unat co * unat arr \<le> 4294967295 * 4294967295"
    using b by (intro mult_mono) simp_all
  with b(3) have "unat co * unat arr + unat cc < 2 ^ LENGTH(64)" by simp
  then have "unat ((ucast co :: u64) * ucast arr) + unat (ucast cc :: u64) < 2 ^ LENGTH(64)"
    by (simp add: p unat_ucast_up)
  then show ?thesis
    by (simp add: unat_add_lem [THEN iffD1] p unat_ucast_up)
qed

text \<open>
  Claim C6. Once the sample \<open>(cnt, ovf)\<close> is read, \<open>calculate_Timestamp\<close> returns the
  cumulative tick count \<open>ovf * arr_value + cnt\<close>, exactly, in 64 bits, and each of
  \<open>TimerLib_GetTimestamp_us\<close>, \<open>TimerLib_GetTimestamp_sf\<close> and \<open>TimerLib_GetTimestamp_df\<close>
  returns the value it derives from that count, or divides by zero when its divisor is
  zero. The queries write nothing: the state left is the state found with exactly the
  update interrupts of the consumed part of the trace served, so every handle and the
  configuration are as before.
\<close>

theorem timestamp_query_frame:
  assumes rd: "atomic_read tr m = Done ((cnt, ovf), tr', m')"
  shows "\<exists>t pre.
           unat t = unat ovf * unat (arr_value m) + unat cnt \<and>
           calculate_Timestamp tr m = Done (t, tr', m') \<and>
           TimerLib_GetTimestamp_us tr m =
             (if us_optimized (optim m)
              then if us_per_tick (optim m) = 0 then Trap DivideByZero
                   else Done (t div ucast (us_per_tick (optim m)), tr', m')
              else if clock_freq m = 0 then Trap DivideByZero
                   else Done (t * 1000000 div ucast (clock_freq m), tr', m')) \<and>
           TimerLib_GetTimestamp_sf tr m =
             (if us_optimized (optim m)
              then if us_per_tick (optim m) = 0 then Trap DivideByZero
                   else Done (t div ucast (us_per_tick (optim m)), tr', m')
              else if clock_freq m = 0 then Trap DivideByZero
                   else Done (t div ucast (clock_freq m), tr', m')) \<and>
           TimerLib_GetTimestamp_df tr m =
             (if us_optimized (optim m)
              then if us_per_tick (optim m) = 0 then Trap DivideByZero
                   else Done (t div ucast (us_per_tick (optim m)), tr', m')
              else if clock_freq m = 0 then Trap DivideByZero
                   else Done (t div ucast (clock_freq m), tr', m')) \<and>
           tr = pre @ tr' \<and> m' = serve_irqs (irq_count pre) m \<and>
           heap m' = heap m \<and> arr_value m' = arr_value m \<and> clock_freq m' = clock_freq m \<and>
           optim m' = optim m"
proof -
  note cfg = atomic_read_config [OF rd]
  let ?t = "(ucast ovf :: u64) * ucast (arr_value m) + ucast cnt"
  have ct: "calculate_Timestamp tr m = Done (?t, tr', m')"
    by (simp add: calculate_Timestamp_def rd cfg)
  have t: "unat ?t = unat ovf * unat (arr_value m) + unat cnt"
    by (rule unat_cumulative)
  from atomic_read_served [OF rd] obtain pre
    where pre: "tr = pre @ tr'" "m' = serve_irqs (irq_count pre) m" by blast
  have us: "TimerLib_GetTimestamp_us tr m =
             (if us_optimized (optim m)
              then if us_per_tick (optim m) = 0 then Trap DivideByZero
                   else Done (?t div ucast (us_per_tick (optim m)), tr', m')
              else if clock_freq m = 0 then Trap DivideByZero
                   else Done (?t * 1000000 div ucast (clock_freq m), tr', m'))"
    by (simp add: TimerLib_GetTimestamp_us_def ct cfg c_div_def ucast_up_eq_0)
  have sf: "TimerLib_GetTimestamp_sf tr m =
             (if us_optimized (optim m)
              then if us_per_tick (optim m) = 0 then Trap DivideByZero
                   else Done (?t div ucast (us_per_tick (optim m)), tr', m')
              else if clock_freq m = 0 then Trap DivideByZero
                   else Done (?t div ucast (clock_freq m), tr', m'))"
    by (simp add: TimerLib_GetTimestamp_sf_def ct cfg c_div_def ucast_up_eq_0)
  have df: "TimerLib_GetTimestamp_df tr m =
             (if us_optimized (optim m)
              then if us_per_tick (optim m) = 0 then Trap DivideByZero
                   else Done (?t div ucast (us_per_tick (optim m)), tr', m')
              else if clock_freq m = 0 then Trap DivideByZero
                   else Done (?t div ucast (clock_freq m), tr', m'))"
    by (simp add: TimerLib_GetTimestamp_df_def ct cfg c_div_def ucast_up_eq_0)
  from t ct us sf df pre cfg show ?thesis by blast
qed

text \<open>
  Reload \<open>8000\<close> at 8 MHz after one overflow; two more are served before the sample is
  read with the counter at 80: \<open>24080\<close> ticks, \<open>3010\<close> microseconds, the overflow counter
  at 3 and the handles as they were.
\<close>

theorem timestamp_query_frame_witness:
  "atomic_read [probe_at 2 80] (running 8000 8000000 1 \<lparr>last_cnt = 7, last_overflow = 1\<rparr>)
     = Done ((80, 3), [], running 8000 8000000 3 \<lparr>last_cnt = 7, last_overflow = 1\<rparr>) \<and>
   calculate_Timestamp [probe_at 2 80] (running 8000 8000000 1 \<lparr>last_cnt = 7, last_overflow = 1\<rparr>)
     = Done (24080, [], running 8000 8000000 3 \<lparr>last_cnt = 7, last_overflow = 1\<rparr>) \<and>
   TimerLib_GetTimestamp_us [probe_at 2 80]
       (running 8000 8000000 1 \<lparr>last_cnt = 7, last_overflow = 1\<rparr>)
     = Done (3010, [], running 8000 8000000 3 \<lparr>last_cnt = 7, last_overflow = 1\<rparr>) \<and>
   TimerLib_GetTimestamp_sf [probe_at 2 80]
       (running 8000 8000000 1 \<lparr>last_cnt = 7, last_overflow = 1\<rparr>)
     = Done (3010, [], running 8000 8000000 3 \<lparr>last_cnt = 7, last_overflow = 1\<rparr>) \<and>
   TimerLib_GetTimestamp_df [probe_at 2 80]
       (running 8000 8000000 1 \<lparr>last_cnt = 7, last_overflow = 1\<rparr>)
     = Done (3010, [], running 8000 8000000 3 \<lparr>last_cnt = 7, last_overflow = 1\<rparr>)"
proof -
  let ?m = "running 8000 8000000 1 \<lparr>last_cnt = 7, last_overflow = 1\<rparr>"
  let ?m' = "running 8000 8000000 3 \<lparr>last_cnt = 7, last_overflow = 1\<rparr>"
  have rd: "atomic_read [probe_at 2 80] ?m = Done ((80, 3), [], ?m')"
    unfolding atomic_read_probe_at by (simp add: running_simp)
  have opt: "us_optimized (optim ?m)" "us_per_tick (optim ?m) = 8" "arr_value ?m = 8000"
    by (simp_all add: running_simp)
  from timestamp_query_frame [OF rd] obtain t
    where t: "unat t = unat (3 :: u32) * unat (arr_value ?m) + unat (80 :: u32)"
      and ct: "calculate_Timestamp [probe_at 2 80] ?m = Done (t, [], ?m')"
      and q: "TimerLib_GetTimestamp_us [probe_at 2 80] ?m =
             (if us_optimized (optim ?m)
              then if us_per_tick (optim ?m) = 0 then Trap DivideByZero
                   else Done (t div ucast (us_per_tick (optim ?m)), [], ?m')
              else if clock_freq ?m = 0 then Trap DivideByZero
                   else Done (t * 1000000 div ucast (clock_freq ?m), [], ?m'))"
        "TimerLib_GetTimestamp_sf [probe_at 2 80] ?m =
             (if us_optimized (optim ?m)
              then if us_per_tick (optim ?m) = 0 then Trap DivideByZero
                   else Done (t div ucast (us_per_tick (optim ?m)), [], ?m')
              else if clock_freq ?m = 0 then Trap DivideByZero
                   else Done (t div ucast (clock_freq ?m), [], ?m'))"
        "TimerLib_GetTimestamp_df [probe_at 2 80] ?m =
             (if us_optimized (optim ?m)
              then if us_per_tick (optim ?m) = 0 then Trap DivideByZero
                   else Done (t div ucast (us_per_tick (optim ?m)), [], ?m')
              else if clock_freq ?m = 0 then Trap DivideByZero
                   else Done (t div ucast (clock_freq ?m), [], ?m'))"
    by blast
  from t have "unat t = 24080" by (simp add: opt)
  then have tv: "t = 24080" by (simp add: word_unat_eq_iff)
  from rd ct q show ?thesis by (simp add: tv opt)
qed

section \<open>Interval queries and their handle\<close>

lemma atomic_read_heap:
  "atomic_read tr (m\<lparr>heap := H\<rparr>) =
     obind (atomic_read tr m) (\<lambda>(s, tr', m'). Done (s, tr', m'\<lparr>heap := H\<rparr>))"
proof (induction tr arbitrary: m)
  case Nil
  show ?case by simp
next
  case (Cons p tr)
  have sw: "serve_irqs n (x\<lparr>heap := H\<rparr>) = (serve_irqs n x)\<lparr>heap := H\<rparr>" for n x
    by (simp add: serve_irqs_eq)
  show ?case
    by (simp add: Let_def sw Cons.IH)
qed

lemma calculate_ticks_other_handle:
  assumes "q \<noteq> htim"
  shows "calculate_ticks htim tr (m\<lparr>heap := (heap m)(q := h)\<rparr>) =
     obind (calculate_ticks htim tr m)
       (\<lambda>(t, tr', m'). Done (t, tr', m'\<lparr>heap := (heap m')(q := h)\<rparr>))"
  using atomic_read_cases [of tr m]
proof
  assume "atomic_read tr m = Waiting"
  then show ?thesis by (simp add: calculate_ticks_def atomic_read_heap)
next
  assume "\<exists>cc co tr'. atomic_read tr m = Done ((cc, co), tr', m\<lparr>overflow_counter := co\<rparr>)"
  then obtain cc co tr' where rd: "atomic_read tr m = Done ((cc, co), tr', m\<lparr>overflow_counter := co\<rparr>)"
    by blast
  let ?m2 = "m\<lparr>heap := (heap m)(q := h)\<rparr>"
  have rd2: "atomic_read tr ?m2 = Done ((cc, co), tr', ?m2\<lparr>overflow_counter := co\<rparr>)"
    by (simp add: atomic_read_heap rd)
  show ?thesis
    unfolding calculate_ticks_Done [OF rd] calculate_ticks_Done [OF rd2]
    using assms by (simp add: fun_upd_twist)
qed

lemma interval_query_other_handle:
  assumes Q: "Q = calculate_ticks \<or> Q \<in> set interval_queries" and "q \<noteq> htim"
  shows "result_of (Q htim tr (m\<lparr>heap := (heap m)(q := h)\<rparr>)) = result_of (Q htim tr m)"
proof (cases "calculate_ticks htim tr m")
  case (Done x)
  obtain t tr1 m1 where x: "x = (t, tr1, m1)" by (metis prod.exhaust)
  have cd: "result_of (obind (c_div a b) (\<lambda>q. Done (f q, tr2, m2)))
      = (if b = 0 then None else Some (f (a div b)))"
    for a b :: "'a::len word" and f :: "'a word \<Rightarrow> u32" and tr2 m2
    by (simp add: c_div_def)
  from Q show ?thesis
    unfolding calculate_ticks_other_handle [OF assms(2)]
    by (auto simp: interval_queries_def TimerLib_GetInterval_us_def TimerLib_GetInterval_ns_def
        TimerLib_GetInterval_sf_def TimerLib_GetInterval_df_def
        calculate_ticks_other_handle [OF assms(2)] Done x cd)
next
  case (Trap e)
  with Q show ?thesis
    by (auto simp: interval_queries_def TimerLib_GetInterval_us_def TimerLib_GetInterval_ns_def
        TimerLib_GetInterval_sf_def TimerLib_GetInterval_df_def
        calculate_ticks_other_handle [OF assms(2)])
next
  case Waiting
  with Q show ?thesis
    by (auto simp: interval_queries_def TimerLib_GetInterval_us_def TimerLib_GetInterval_ns_def
        TimerLib_GetInterval_sf_def TimerLib_GetInterval_df_def
        calculate_ticks_other_handle [OF assms(2)])
qed

text \<open>
  Claim C7. Once the sample \<open>(cnt, ovf)\<close> is read, \<open>calculate_ticks\<close> returns the 32-bit
  elapsed count since the baseline of the handle it was given, and each of the four
  public getters built on it returns the value it derives from that count, or divides
  by zero when its divisor is zero. On return the handle holds the sample just taken and
  nothing else is written: every other handle and the configuration are as before, and
  the overflow counter has received exactly the update interrupts of the consumed part
  of the trace. The value reported for a handle does not depend on what any other handle
  holds, so queries on one handle do not affect the intervals reported for another.
\<close>

theorem interval_query_frame:
  fixes htim :: nat
  assumes rd: "atomic_read tr m = Done ((cnt, ovf), tr', m1)"
  defines "m' \<equiv> m1\<lparr>heap := (heap m)(htim := \<lparr>last_cnt = cnt, last_overflow = ovf\<rparr>)\<rparr>"
  shows "\<exists>ticks pre.
           unat ticks = elapsed_since (arr_value m)
                          (last_cnt (heap m htim), last_overflow (heap m htim)) (cnt, ovf) \<and>
           calculate_ticks htim tr m = Done (ticks, tr', m') \<and>
           TimerLib_GetInterval_us htim tr m =
             (if us_optimized (optim m)
              then if us_per_tick (optim m) = 0 then Trap DivideByZero
                   else Done (ticks div us_per_tick (optim m), tr', m')
              else if clock_freq m = 0 then Trap DivideByZero
                   else Done (ucast ((ucast ticks :: u64) * 1000000 div ucast (clock_freq m)),
                              tr', m')) \<and>
           TimerLib_GetInterval_ns htim tr m =
             (if ns_optimized (optim m)
              then if ns_per_tick (optim m) = 0 then Trap DivideByZero
                   else Done (ticks div ns_per_tick (optim m), tr', m')
              else if clock_freq m = 0 then Trap DivideByZero
                   else Done (ucast ((ucast ticks :: u64) * 1000000000 div ucast (clock_freq m)),
                              tr', m')) \<and>
           TimerLib_GetInterval_sf htim tr m =
             (if us_optimized (optim m)
              then if us_per_tick (optim m) = 0 then Trap DivideByZero
                   else Done (ticks div us_per_tick (optim m), tr', m')
              else if clock_freq m = 0 then Trap DivideByZero
                   else Done (ticks div clock_freq m, tr', m')) \<and>
           TimerLib_GetInterval_df htim tr m =
             (if ns_optimized (optim m)
              then if ns_per_tick (optim m) = 0 then Trap DivideByZero
                   else Done (ticks div ns_per_tick (optim m), tr', m')
              else if clock_freq m = 0 then Trap DivideByZero
                   else Done (ticks div clock_freq m, tr', m')) \<and>
           tr = pre @ tr' \<and> m1 = serve_irqs (irq_count pre) m \<and>
           heap m' htim = \<lparr>last_cnt = cnt, last_overflow = ovf\<rparr> \<and>
           (\<forall>q. q \<noteq> htim \<longrightarrow> heap m' q = heap m q) \<and>
           arr_value m' = arr_value m \<and> clock_freq m' = clock_freq m \<and> optim m' = optim m \<and>
           overflow_counter m' = overflow_counter m + of_nat (irq_count pre) \<and>
           (\<forall>Q q h. (Q = calculate_ticks \<or> Q \<in> set interval_queries) \<and> q \<noteq> htim \<longrightarrow>
              result_of (Q htim tr (m\<lparr>heap := (heap m)(q := h)\<rparr>)) = result_of (Q htim tr m))"
proof -
  note cfg = atomic_read_config [OF rd]
  have m1: "m1 = m\<lparr>overflow_counter := ovf\<rparr>" using rd by (rule atomic_read_Done)
  let ?ticks = "word_of_int (ElapsedTicks_spec (uint (arr_value m))
                     (uint (last_cnt (heap m htim)), uint (last_overflow (heap m htim)))
                     (uint cnt, uint ovf)) :: u32"
  have ct: "calculate_ticks htim tr m = Done (?ticks, tr', m')"
    unfolding calculate_ticks_Done [OF rd] m'_def m1 by simp
  have tk: "unat ?ticks = elapsed_since (arr_value m)
                          (last_cnt (heap m htim), last_overflow (heap m htim)) (cnt, ovf)"
    by (simp add: elapsed_since_def unat_eq_nat_uint uint_word_of_int)
  from atomic_read_served [OF rd] obtain pre
    where pre: "tr = pre @ tr'" "m1 = serve_irqs (irq_count pre) m" by blast
  have same: "optim m' = optim m" "clock_freq m' = clock_freq m" "arr_value m' = arr_value m"
    unfolding m'_def by (simp_all add: cfg)
  have us: "TimerLib_GetInterval_us htim tr m =
             (if us_optimized (optim m)
              then if us_per_tick (optim m) = 0 then Trap DivideByZero
                   else Done (?ticks div us_per_tick (optim m), tr', m')
              else if clock_freq m = 0 then Trap DivideByZero
                   else Done (ucast ((ucast ?ticks :: u64) * 1000000 div ucast (clock_freq m)),
                              tr', m'))"
    unfolding TimerLib_GetInterval_us_def ct by (simp add: same c_div_def ucast_up_eq_0)
  have ns: "TimerLib_GetInterval_ns htim tr m =
             (if ns_optimized (optim m)
              then if ns_per_tick (optim m) = 0 then Trap DivideByZero
                   else Done (?ticks div ns_per_tick (optim m), tr', m')
              else if clock_freq m = 0 then Trap DivideByZero
                   else Done (ucast ((ucast ?ticks :: u64) * 1000000000 div ucast (clock_freq m)),
                              tr', m'))"
    unfolding TimerLib_GetInterval_ns_def ct by (simp add: same c_div_def ucast_up_eq_0)
  have sf: "TimerLib_GetInterval_sf htim tr m =
             (if us_optimized (optim m)
              then if us_per_tick (optim m) = 0 then Trap DivideByZero
                   else Done (?ticks div us_per_tick (optim m), tr', m')
              else if clock_freq m = 0 then Trap DivideByZero
                   else Done (?ticks div clock_freq m, tr', m'))"
    unfolding TimerLib_GetInterval_sf_def ct by (simp add: same c_div_def)
  have df: "TimerLib_GetInterval_df htim tr m =
             (if ns_optimized (optim m)
              then if ns_per_tick (optim m) = 0 then Trap DivideByZero
                   else Done (?ticks div ns_per_tick (optim m), tr', m')
              else if clock_freq m = 0 then Trap DivideByZero
                   else Done (?ticks div clock_freq m, tr', m'))"
    unfolding TimerLib_GetInterval_df_def ct by (simp add: same c_div_def)
  have frame: "heap m' htim = \<lparr>last_cnt = cnt, last_overflow = ovf\<rparr>"
    "\<forall>q. q \<noteq> htim \<longrightarrow> heap m' q = heap m q"
    unfolding m'_def by simp_all
  have oc: "overflow_counter m' = overflow_counter m + of_nat (irq_count pre)"
    unfolding m'_def pre(2) by (simp add: serve_irqs_eq)
  have indep: "\<forall>Q q h. (Q = calculate_ticks \<or> Q \<in> set interval_queries) \<and> q \<noteq> htim \<longrightarrow>
              result_of (Q htim tr (m\<lparr>heap := (heap m)(q := h)\<rparr>)) = result_of (Q htim tr m)"
    using interval_query_other_handle by blast
  from tk ct us ns sf df pre frame same oc indep show ?thesis by blast
qed

text \<open>
  Two handles with baselines \<open>100\<close> and \<open>300\<close>. A microsecond query on the first, one
  overflow later at counter value 500, reports 8400 ticks, 1050 microseconds, and moves
  only that handle's baseline to \<open>(500, 1)\<close>; it reports the same whatever the second
  handle holds.
\<close>

theorem interval_query_frame_witness:
  "atomic_read [probe_at 1 500]
       ((running 8000 8000000 0 \<lparr>last_cnt = 300, last_overflow = 0\<rparr>)
          \<lparr>heap := (\<lambda>a. \<lparr>last_cnt = 300, last_overflow = 0\<rparr>)(0 := \<lparr>last_cnt = 100, last_overflow = 0\<rparr>)\<rparr>)
     = Done ((500, 1), [],
         (running 8000 8000000 1 \<lparr>last_cnt = 300, last_overflow = 0\<rparr>)
          \<lparr>heap := (\<lambda>a. \<lparr>last_cnt = 300, last_overflow = 0\<rparr>)(0 := \<lparr>last_cnt = 100, last_overflow = 0\<rparr>)\<rparr>) \<and>
   calculate_ticks 0 [probe_at 1 500]
       ((running 8000 8000000 0 \<lparr>last_cnt = 300, last_overflow = 0\<rparr>)
          \<lparr>heap := (\<lambda>a. \<lparr>last_cnt = 300, last_overflow = 0\<rparr>)(0 := \<lparr>last_cnt = 100, last_overflow = 0\<rparr>)\<rparr>)
     = Done (8400, [],
         (running 8000 8000000 1 \<lparr>last_cnt = 300, last_overflow = 0\<rparr>)
          \<lparr>heap := (\<lambda>a. \<lparr>last_cnt = 300, last_overflow = 0\<rparr>)(0 := \<lparr>last_cnt = 500, last_overflow = 1\<rparr>)\<rparr>) \<and>
   TimerLib_GetInterval_us 0 [probe_at 1 500]
       ((running 8000 8000000 0 \<lparr>last_cnt = 300, last_overflow = 0\<rparr>)
          \<lparr>heap := (\<lambda>a. \<lparr>last_cnt = 300, last_overflow = 0\<rparr>)(0 := \<lparr>last_cnt = 100, last_overflow = 0\<rparr>)\<rparr>)
     = Done (1050, [],
         (running 8000 8000000 1 \<lparr>last_cnt = 300, last_overflow = 0\<rparr>)
          \<lparr>heap := (\<lambda>a. \<lparr>last_cnt = 300, last_overflow = 0\<rparr>)(0 := \<lparr>last_cnt = 500, last_overflow = 1\<rparr>)\<rparr>) \<and>
   result_of (TimerLib_GetInterval_us 0 [probe_at 1 500]
       ((running 8000 8000000 0 \<lparr>last_cnt = 300, last_overflow = 0\<rparr>)
          \<lparr>heap := (\<lambda>a. \<lparr>last_cnt = 300, last_overflow = 0\<rparr>)
                     (0 := \<lparr>last_cnt = 100, last_overflow = 0\<rparr>,
                      1 := \<lparr>last_cnt = 7000, last_overflow = 9\<rparr>)\<rparr>)) = Some 1050"
proof -
  let ?h = "\<lparr>last_cnt = 300, last_overflow = 0\<rparr>"
  let ?H = "(\<lambda>a. ?h)(0 := \<lparr>last_cnt = 100, last_overflow = 0\<rparr>)"
  let ?m = "(running 8000 8000000 0 ?h)\<lparr>heap := ?H\<rparr>"
  let ?m1 = "(running 8000 8000000 1 ?h)\<lparr>heap := ?H\<rparr>"
  let ?m' = "(running 8000 8000000 1 ?h)\<lparr>heap := (\<lambda>a. ?h)(0 := \<lparr>last_cnt = 500, last_overflow = 1\<rparr>)\<rparr>"
  have rd: "atomic_read [probe_at 1 500] ?m = Done ((500, 1), [], ?m1)"
    unfolding atomic_read_probe_at by (simp add: running_simp)
  have st: "?m1\<lparr>heap := (heap ?m)(0 := \<lparr>last_cnt = 500, last_overflow = 1\<rparr>)\<rparr> = ?m'"
    by (simp add: running_simp)
  have opt: "us_optimized (optim ?m)" "us_per_tick (optim ?m) = 8" "arr_value ?m = 8000"
    "heap ?m 0 = \<lparr>last_cnt = 100, last_overflow = 0\<rparr>"
    by (simp_all add: running_simp)
  have E: "elapsed_since 8000 (100, 0) (500, 1) = 8400"
    by (simp add: elapsed_since_def ElapsedTicks_spec_def)
  have upd: "?m\<lparr>heap := (heap ?m)(1 := \<lparr>last_cnt = 7000, last_overflow = 9\<rparr>)\<rparr>
      = (running 8000 8000000 0 ?h)\<lparr>heap := (\<lambda>a. ?h)
           (0 := \<lparr>last_cnt = 100, last_overflow = 0\<rparr>, 1 := \<lparr>last_cnt = 7000, last_overflow = 9\<rparr>)\<rparr>"
    by simp
  have mem: "TimerLib_GetInterval_us \<in> set interval_queries"
    by (simp add: interval_queries_def)
  let ?mm = "?m1\<lparr>heap := (heap ?m)(0 := \<lparr>last_cnt = 500, last_overflow = 1\<rparr>)\<rparr>"
  from interval_query_frame [OF rd, of 0] obtain ticks
    where tk: "unat ticks = elapsed_since (arr_value ?m)
                 (last_cnt (heap ?m 0), last_overflow (heap ?m 0)) (500, 1)"
      and ct: "calculate_ticks 0 [probe_at 1 500] ?m = Done (ticks, [], ?mm)"
      and us: "TimerLib_GetInterval_us 0 [probe_at 1 500] ?m =
             (if us_optimized (optim ?m)
              then if us_per_tick (optim ?m) = 0 then Trap DivideByZero
                   else Done (ticks div us_per_tick (optim ?m), [], ?mm)
              else if clock_freq ?m = 0 then Trap DivideByZero
                   else Done (ucast ((ucast ticks :: u64) * 1000000 div ucast (clock_freq ?m)),
                              [], ?mm))"
      and indep: "\<forall>Q q h. (Q = calculate_ticks \<or> Q \<in> set interval_queries) \<and> q \<noteq> 0 \<longrightarrow>
              result_of (Q 0 [probe_at 1 500] (?m\<lparr>heap := (heap ?m)(q := h)\<rparr>))
                = result_of (Q 0 [probe_at 1 500] ?m)"
    by blast
  from tk have "unat ticks = 8400" by (simp add: opt E)
  then have tv: "ticks = 8400" by (simp add: word_unat_eq_iff)
  from ct have ctv: "calculate_ticks 0 [probe_at 1 500] ?m = Done (8400, [], ?m')"
    unfolding tv st .
  from us have usv: "TimerLib_GetInterval_us 0 [probe_at 1 500] ?m = Done (1050, [], ?m')"
    unfolding tv st by (simp add: running_simp)
  from indep mem have "result_of (TimerLib_GetInterval_us 0 [probe_at 1 500]
          (?m\<lparr>heap := (heap ?m)(1 := \<lparr>last_cnt = 7000, last_overflow = 9\<rparr>)\<rparr>))
        = result_of (TimerLib_GetInterval_us 0 [probe_at 1 500] ?m)"
    by (metis zero_neq_one)
  then have other: "result_of (TimerLib_GetInterval_us 0 [probe_at 1 500]
          (?m\<lparr>heap := (heap ?m)(1 := \<lparr>last_cnt = 7000, last_overflow = 9\<rparr>)\<rparr>)) = Some 1050"
    unfolding usv by (simp only: result_of.simps)
  from rd ctv usv other [unfolded upd] show ?thesis by simp
qed

section \<open>What a returned sample guarantees\<close>





section \<open>The 32-bit elapsed count\<close>

text \<open>
  \<open>elapsed_since\<close> is the tick count \<open>calculate_ticks\<close> returns, and it is below
  \<open>2 ^ 32\<close>. The wait loops of \<open>TimerLib_DelayUS\<close> and \<open>TimerLib_DelayNS\<close> compare it
  with a 64-bit target; a target of \<open>2 ^ 32\<close> ticks or more is therefore never reached.
  A 600 second delay at 8000001 Hz has such a target.
\<close>

lemma calculate_ticks_elapsed_since:
  assumes "atomic_read tr m = Done (cur, tr', m')"
    and "calculate_ticks htim tr m = Done (ticks, tr'', m'')"
  shows "unat ticks =
     elapsed_since (arr_value m) (last_cnt (heap m htim), last_overflow (heap m htim)) cur"
proof -
  obtain cc co where c: "cur = (cc, co)" by (cases cur)
  from calculate_ticks_Done [OF assms(1) [unfolded c], of htim] assms(2) c
  show ?thesis
    by (simp add: elapsed_since_def unat_eq_nat_uint uint_word_of_int)
qed

lemma elapsed_since_bound: "elapsed_since arr start cur < 4294967296"
proof -
  have "ElapsedTicks_spec (uint arr) (uint (fst start), uint (snd start))
            (uint (fst cur), uint (snd cur)) mod 2 ^ 32 < 2 ^ 32"
    by (rule pos_mod_bound) simp
  then show ?thesis by (simp add: elapsed_since_def)
qed

lemma delay_beyond_32_bits:
  assumes "4294967296 \<le> unat (DelayUS_ticks m us)"
  shows "TimerLib_DelayUS us tr m \<noteq> Done out"
proof (cases "atomic_read tr m")
  case (Done x)
  obtain start tr0 m0 where x: "x = (start, tr0, m0)" by (metis prod.exhaust)
  note start = Done [unfolded x]
  note cfg = atomic_read_config [OF start]
  have us: "DelayUS_ticks m0 us = DelayUS_ticks m us" by (simp add: DelayUS_ticks_def cfg)
  have U: "TimerLib_DelayUS us tr m =
      wait_loop (\<lambda>m' cur. DelayUS_ticks m us \<le> ucast (delay_elapsed (arr_value m') start cur)) tr0 m0"
    by (simp add: TimerLib_DelayUS_def start us)
  have "elapsed_since (arr_value m0) start (fst p) < unat (DelayUS_ticks m us)"
    for p :: "(u32 \<times> u32) \<times> trace \<times> timer_state"
    using assms elapsed_since_bound [of "arr_value m0" start "fst p"] by simp
  then have "never_reached (unat (DelayUS_ticks m us)) (elapsed_since (arr_value m0) start)
      (polls tr0 m0)"
    by (simp add: never_reached_def)
  moreover have "wait_loop (\<lambda>m' cur. DelayUS_ticks m us \<le> ucast (delay_elapsed (arr_value m') start cur)) tr0 m0 = Waiting \<longleftrightarrow>
      never_reached (unat (DelayUS_ticks m us)) (elapsed_since (arr_value m0) start) (polls tr0 m0)"
    by (intro wait_loop_threshold wide_reached)
  ultimately have "TimerLib_DelayUS us tr m = Waiting"
    unfolding U by simp
  then show ?thesis by simp
next
  case (Trap e)
  then show ?thesis by (simp add: TimerLib_DelayUS_def)
next
  case Waiting
  then show ?thesis by (simp add: TimerLib_DelayUS_def)
qed

lemma delay_beyond_32_bits_example:
  "DelayUS_ticks (running 65536 8000001 0 \<lparr>last_cnt = 0, last_overflow = 0\<rparr>) 600000000
     = 4800000600"
  by (simp add: DelayUS_ticks_def running_simp)

end
